theory Spec2Isabelle
  imports Complex_Main "HOL-Library.AList"
begin

text \<open>
  The status aggregator of the relayer dashboard, \<^verbatim>\<open>web/functions/api/status.ts\<close>: it
  resolves a price-feed identifier for each network of the registry, fetches the USD
  prices in one call, probes the status endpoint of every network through a pool of
  twelve workers, enriches each answer with USD figures and returns one snapshot.
  The functions below follow that file; what the platform does (\<^verbatim>\<open>fetch\<close>, the event
  loop) is an input of the model.
\<close>

section \<open>Values exchanged with the outside world\<close>

text \<open>
  A parsed JSON document, as \<^verbatim>\<open>res.json()\<close> returns it. An object is the list of its
  members; it is read with \<^const>\<open>map_of\<close> and written with \<^const>\<open>AList.update\<close>, which
  replaces the value of a key that is present and appends a new key otherwise, as a
  property definition on a JavaScript object does (the enumeration order of
  integer-like keys is not modelled; nothing below depends on key order). Numbers are
  exact reals: rounding, infinities and signed zero of IEEE doubles are outside this
  model. A string is a list of characters; a character stands for one code unit.
\<close>

datatype json =
    JNull
  | JBool bool
  | JNum real
  | JStr string
  | JArr "json list"
  | JObj "(string \<times> json) list"

text \<open>
  A thrown value \<open>e\<close>, seen through the two ways the handlers read it:
  \<^verbatim>\<open>e?.message\<close> and \<^verbatim>\<open>String(e)\<close>.
\<close>

datatype thrown = Thrown (message: "string option") (to_string: string)

text \<open>\<^verbatim>\<open>e?.message ?? String(e)\<close>\<close>

definition error_text :: "thrown \<Rightarrow> string" where
  "error_text e = (case message e of Some m \<Rightarrow> m | None \<Rightarrow> to_string e)"

text \<open>\<^verbatim>\<open>new Error(msg)\<close>\<close>

definition new_Error :: "string \<Rightarrow> thrown" where
  "new_Error msg = Thrown (Some msg) (''Error: '' @ msg)"

text \<open>
  What one \<^verbatim>\<open>fetch\<close> call does: the promise rejects (no response at all), or it
  resolves to a response with a status code and a body that \<^verbatim>\<open>res.json()\<close> either
  parses or rejects.
\<close>

record response =
  res_status :: nat
  res_json :: "thrown + json"

datatype fetch_result = Rejected thrown | Resolved response

text \<open>\<^verbatim>\<open>res.ok\<close>: the status is in the range 200 to 299.\<close>

definition res_ok :: "response \<Rightarrow> bool" where
  "res_ok res = (200 \<le> res_status res \<and> res_status res \<le> 299)"

text \<open>Decimal rendering of a number inside a template string.\<close>

definition digit_char :: "nat \<Rightarrow> char" where
  "digit_char d = char_of (48 + d)"

fun show_nat :: "nat \<Rightarrow> string" where
  "show_nat n = (if n < 10 then [digit_char n] else show_nat (n div 10) @ [digit_char (n mod 10)])"

declare show_nat.simps [simp del]

text \<open>
  Property read \<^verbatim>\<open>v?.k\<close> on a parsed JSON value, for the keys this program reads
  (\<^verbatim>\<open>senders\<close>, \<^verbatim>\<open>etherBalance\<close>, \<^verbatim>\<open>usd\<close>): only an object can have them, as none
  of them is a property of a prototype.
\<close>

definition get_prop :: "json \<Rightarrow> string \<Rightarrow> json option" where
  "get_prop v k = (case v of JObj kvs \<Rightarrow> map_of kvs k | _ \<Rightarrow> None)"

text \<open>
  The own enumerable properties that \<^verbatim>\<open>{...v}\<close> copies: the members of an object,
  the elements of an array under their indices, the characters of a string under
  theirs, and nothing for \<^verbatim>\<open>null\<close>, a boolean or a number.
\<close>

definition index_keys :: "'a list \<Rightarrow> (string \<times> 'a) list" where
  "index_keys xs = zip (map show_nat [0..<length xs]) xs"

definition spread :: "json \<Rightarrow> (string \<times> json) list" where
  "spread v =
     (case v of
        JObj kvs \<Rightarrow> kvs
      | JArr xs \<Rightarrow> index_keys xs
      | JStr s \<Rightarrow> index_keys (map (\<lambda>c. JStr [c]) s)
      | _ \<Rightarrow> [])"

text \<open>\<^verbatim>\<open>Object.entries(v)\<close>: as the spread, except that \<^verbatim>\<open>null\<close> throws a TypeError.\<close>

definition entries :: "json \<Rightarrow> thrown + (string \<times> json) list" where
  "entries v =
     (case v of
        JNull \<Rightarrow> Inl (Thrown (Some ''Cannot convert undefined or null to object'')
                       ''TypeError: Cannot convert undefined or null to object'')
      | _ \<Rightarrow> Inr (spread v))"

section \<open>The network registry\<close>

text \<open>
  The fields of a \<^verbatim>\<open>Network\<close> descriptor that the aggregator reads; the descriptor
  is passed through to the outcome as a whole.
\<close>

record currency =
  symbol :: string
  currency_name :: string

record network =
  name :: string
  nativeCurrency :: "currency option"

section \<open>Price lookup\<close>

text \<open>
  The table of identifiers. It is read with \<^const>\<open>map_of\<close>: a symbol that is not a key
  has no identifier (a symbol named like a property of \<^verbatim>\<open>Object.prototype\<close> is not
  modelled).
\<close>

definition COINGECKO_ID_BY_SYMBOL :: "(string \<times> string) list" where
  "COINGECKO_ID_BY_SYMBOL =
     [(''ETH'', ''ethereum''),
      (''sETH'', ''ethereum''),
      (''OP'', ''optimism''),
      (''POL'', ''polygon-ecosystem-token''),
      (''MATIC'', ''matic-network''),
      (''BNB'', ''binancecoin''),
      (''AVAX'', ''avalanche-2''),
      (''XDAI'', ''gnosis''),
      (''GLMR'', ''moonbeam''),
      (''MOVR'', ''moonriver''),
      (''APE'', ''apecoin''),
      (''XAI'', ''xai''),
      (''IMX'', ''immutable-x''),
      (''XTZ'', ''tezos''),
      (''OAS'', ''oasys''),
      (''USDC'', ''usd-coin'')]"

text \<open>The loop body of \<^verbatim>\<open>fetchUsdPrices\<close> over \<^verbatim>\<open>Object.entries(json)\<close>.\<close>

definition keep_quote :: "string \<times> json \<Rightarrow> (string \<times> real) list \<Rightarrow> (string \<times> real) list" where
  "keep_quote kv out =
     (case get_prop (snd kv) ''usd'' of
        Some (JNum x) \<Rightarrow> AList.update (fst kv) x out
      | _ \<Rightarrow> out)"

text \<open>
  \<^verbatim>\<open>fetchUsdPrices(ids, apiKey)\<close>, given what the one call to the price feed does.
  The identifiers and the key only shape the request; the feed is not asked at all
  when there is no identifier.
\<close>

definition fetchUsdPrices ::
  "string list \<Rightarrow> string option \<Rightarrow> fetch_result \<Rightarrow> thrown + (string \<times> real) list" where
  "fetchUsdPrices ids apiKey feed =
     (if length ids = 0 then Inr []
      else case feed of
        Rejected e \<Rightarrow> Inl e
      | Resolved res \<Rightarrow>
          if \<not> res_ok res then Inl (new_Error (''CoinGecko HTTP '' @ show_nat (res_status res)))
          else (case res_json res of
                  Inl e \<Rightarrow> Inl e
                | Inr j \<Rightarrow>
                    (case entries j of
                       Inl e \<Rightarrow> Inl e
                     | Inr kvs \<Rightarrow> Inr (fold keep_quote kvs []))))"

text \<open>
  The first loop of \<^verbatim>\<open>onRequest\<close>: the identifier of one network, the set of
  identifiers needed (a \<^verbatim>\<open>Set\<close>, in insertion order) and the identifier per network
  name.
\<close>

definition resolve_id :: "network \<Rightarrow> string option" where
  "resolve_id n =
     (case nativeCurrency n of
        None \<Rightarrow> None
      | Some c \<Rightarrow> if symbol c = [] then None else map_of COINGECKO_ID_BY_SYMBOL (symbol c))"

definition set_add :: "'a \<Rightarrow> 'a list \<Rightarrow> 'a list" where
  "set_add x xs = (if x \<in> set xs then xs else xs @ [x])"

record resolver =
  idsNeeded :: "string list"
  coinGeckoIdByNetworkName :: "string \<Rightarrow> string option"

definition resolve_step :: "network \<Rightarrow> resolver \<Rightarrow> resolver" where
  "resolve_step n r =
     (let id = resolve_id n in
      \<lparr> idsNeeded = (case id of Some x \<Rightarrow> set_add x (idsNeeded r) | None \<Rightarrow> idsNeeded r),
        coinGeckoIdByNetworkName = (coinGeckoIdByNetworkName r)(name n := id) \<rparr>)"

definition resolve_all :: "network list \<Rightarrow> resolver" where
  "resolve_all nets = fold resolve_step nets \<lparr> idsNeeded = [], coinGeckoIdByNetworkName = (\<lambda>_. None) \<rparr>"

text \<open>The \<^verbatim>\<open>try\<close>/\<^verbatim>\<open>catch\<close> around the price lookup.\<close>

record pricing_stage =
  pricesUsd :: "(string \<times> real) list"
  pricingError :: "string option"

definition price_stage :: "string list \<Rightarrow> string option \<Rightarrow> fetch_result \<Rightarrow> pricing_stage" where
  "price_stage ids apiKey feed =
     (case fetchUsdPrices ids apiKey feed of
        Inr prices \<Rightarrow> \<lparr> pricesUsd = prices, pricingError = None \<rparr>
      | Inl e \<Rightarrow> \<lparr> pricesUsd = [], pricingError = Some (error_text e) \<rparr>)"

text \<open>\<^verbatim>\<open>coinGeckoId ? pricesUsd[coinGeckoId] ?? null : null\<close>\<close>

definition usdPrice_of :: "(string \<times> real) list \<Rightarrow> string option \<Rightarrow> real option" where
  "usdPrice_of prices coinGeckoId =
     (case coinGeckoId of None \<Rightarrow> None | Some cid \<Rightarrow> if cid = [] then None else map_of prices cid)"

section \<open>One probe and its enrichment\<close>

record native_token =
  nt_symbol :: "string option"
  nt_name :: "string option"
  coinGeckoId :: "string option"
  usdPrice :: "real option"

record summary =
  senderCount :: nat
  totalNative :: real
  totalUsd :: "real option"
  minNative :: "real option"
  minUsd :: "real option"

text \<open>
  One slot of \<^verbatim>\<open>results\<close>. A field that the object literal does not have is \<open>None\<close>.
  The value of \<^verbatim>\<open>zeroCount\<close> is left out of the summary (it needs the number that
  JavaScript reads from a string, and nothing below reads it); that computing it can
  throw is part of the model, see \<open>enrichment_fault\<close>.
\<close>

record outcome =
  network :: network
  url :: string
  ok :: bool
  status :: nat
  error :: "string option"
  nativeToken :: native_token
  data :: "json option"
  summary :: "summary option"

text \<open>\<^verbatim>\<open>typeof s?.etherBalance === 'number' ? s.etherBalance : 0\<close>\<close>

definition balance_of :: "json \<Rightarrow> real" where
  "balance_of s = (case get_prop s ''etherBalance'' of Some (JNum x) \<Rightarrow> x | _ \<Rightarrow> 0)"

text \<open>\<^verbatim>\<open>Array.isArray(jsonRaw?.senders) ? jsonRaw.senders : []\<close>\<close>

definition senders_of :: "json \<Rightarrow> json list" where
  "senders_of jsonRaw = (case get_prop jsonRaw ''senders'' of Some (JArr xs) \<Rightarrow> xs | _ \<Rightarrow> [])"

text \<open>The callback of \<^verbatim>\<open>senders.map\<close>.\<close>

definition enrich_sender :: "real option \<Rightarrow> json \<Rightarrow> json" where
  "enrich_sender price s =
     (let bal = balance_of s in
      JObj (AList.update ''usdValue''
              (case price of Some p \<Rightarrow> JNum (bal * p) | None \<Rightarrow> JNull)
              (spread s)))"

definition enrichedSenders :: "real option \<Rightarrow> json \<Rightarrow> json list" where
  "enrichedSenders price jsonRaw = map (enrich_sender price) (senders_of jsonRaw)"

text \<open>
  The rollup over the enriched senders. \<^verbatim>\<open>Math.min\<close> is only called on a list that
  is not empty, where it folds \<^const>\<open>min\<close> over the arguments. That the call can be
  refused for a long list is in \<open>enrichment_fault\<close>.
\<close>

definition summarise :: "real option \<Rightarrow> json list \<Rightarrow> summary" where
  "summarise price enriched =
     (let total = foldl (\<lambda>acc s. acc + balance_of s) 0 enriched;
          least = (case map balance_of enriched of
                     [] \<Rightarrow> None
                   | b # bs \<Rightarrow> Some (fold min bs b))
      in \<lparr> senderCount = length enriched,
           totalNative = total,
           totalUsd = (case price of Some p \<Rightarrow> Some (total * p) | None \<Rightarrow> None),
           minNative = least,
           minUsd = (case price of
                       Some p \<Rightarrow> (case least of Some m \<Rightarrow> Some (m * p) | None \<Rightarrow> None)
                     | None \<Rightarrow> None) \<rparr>)"

text \<open>
  What the enrichment can throw. Two expressions of the \<^verbatim>\<open>try\<close> block between
  \<^verbatim>\<open>res.json()\<close> and the store into \<^verbatim>\<open>results\<close> can throw, and the \<^verbatim>\<open>catch\<close> then
  stores a failure outcome with status 0.

  \<^item> \<^verbatim>\<open>Math.min(...list)\<close> passes one argument per sender; the engine refuses a call
    with too many arguments with a RangeError. How many is too many is the engine's
    business: \<open>refused\<close> says it for each number of arguments.
  \<^item> \<^verbatim>\<open>(s.etherBalance ?? 0) <= 0\<close> converts a balance that is an object or an array to
    a primitive. For a parsed object, \<^verbatim>\<open>valueOf\<close> (inherited, or an own property that
    is not callable) gives no primitive, so the conversion rests on \<^verbatim>\<open>toString\<close>: an
    own property \<^verbatim>\<open>toString\<close>, which is never callable in parsed JSON, makes it throw
    a TypeError. An array is joined, converting each element that is not \<^verbatim>\<open>null\<close> to a
    string, which throws for an element that does.

  The minimum is computed before the count, so its fault comes first. The texts of
  the two faults are those of V8.
\<close>

fun coercion_throws :: "json \<Rightarrow> bool" where
  "coercion_throws (JObj kvs) = (map_of kvs ''toString'' \<noteq> None)"
| "coercion_throws (JArr xs) = (\<exists>x\<in>set xs. coercion_throws x)"
| "coercion_throws v = False"

text \<open>\<^verbatim>\<open>(s.etherBalance ?? 0) <= 0\<close> throws.\<close>

definition zero_test_throws :: "json \<Rightarrow> bool" where
  "zero_test_throws s =
     (case get_prop s ''etherBalance'' of Some v \<Rightarrow> coercion_throws v | None \<Rightarrow> False)"

definition RangeError :: thrown where
  "RangeError = Thrown (Some ''Maximum call stack size exceeded'')
                       ''RangeError: Maximum call stack size exceeded''"

definition TypeError :: thrown where
  "TypeError = Thrown (Some ''Cannot convert object to primitive value'')
                      ''TypeError: Cannot convert object to primitive value''"

definition enrichment_fault :: "(nat \<Rightarrow> bool) \<Rightarrow> real option \<Rightarrow> json \<Rightarrow> thrown option" where
  "enrichment_fault refused price jsonRaw =
     (let enriched = enrichedSenders price jsonRaw in
      if length enriched \<noteq> 0 \<and> refused (length enriched) then Some RangeError
      else if list_ex zero_test_throws enriched then Some TypeError
      else None)"

text \<open>
  \<^verbatim>\<open>{ ...(typeof jsonRaw === 'object' && jsonRaw ? jsonRaw : {}), senders: enrichedSenders }\<close>:
  \<^verbatim>\<open>typeof\<close> is \<^verbatim>\<open>'object'\<close> for an object, an array and \<^verbatim>\<open>null\<close>, and \<^verbatim>\<open>null\<close> is
  falsy.
\<close>

definition is_object :: "json \<Rightarrow> bool" where
  "is_object v = (case v of JObj _ \<Rightarrow> True | JArr _ \<Rightarrow> True | _ \<Rightarrow> False)"

definition enriched_data :: "json \<Rightarrow> json list \<Rightarrow> json" where
  "enriched_data jsonRaw enriched =
     JObj (AList.update ''senders'' (JArr enriched) (if is_object jsonRaw then spread jsonRaw else []))"

definition probe_url :: "network \<Rightarrow> string" where
  "probe_url n = ''https://'' @ name n @ ''-relayer.sequence.app/status''"

definition native_token_of :: "network \<Rightarrow> string option \<Rightarrow> real option \<Rightarrow> native_token" where
  "native_token_of n cid price =
     \<lparr> nt_symbol = map_option symbol (nativeCurrency n),
       nt_name = map_option currency_name (nativeCurrency n),
       coinGeckoId = cid,
       usdPrice = price \<rparr>"

text \<open>
  The three object literals stored into \<^verbatim>\<open>results[idx]\<close>. The one of a success is
  reached only when nothing before it in the \<^verbatim>\<open>try\<close> block has thrown.
\<close>

definition http_failure :: "network \<Rightarrow> string option \<Rightarrow> real option \<Rightarrow> response \<Rightarrow> outcome" where
  "http_failure n cid price res =
     \<lparr> network = n, url = probe_url n, ok = False, status = res_status res,
       error = Some (''HTTP '' @ show_nat (res_status res)),
       nativeToken = native_token_of n cid price,
       data = None, summary = None \<rparr>"

definition success :: "network \<Rightarrow> string option \<Rightarrow> real option \<Rightarrow> response \<Rightarrow> json \<Rightarrow> outcome" where
  "success n cid price res jsonRaw =
     (let enriched = enrichedSenders price jsonRaw in
      \<lparr> network = n, url = probe_url n, ok = True, status = res_status res,
        error = None,
        nativeToken = native_token_of n cid price,
        data = Some (enriched_data jsonRaw enriched),
        summary = Some (summarise price enriched) \<rparr>)"

definition caught :: "network \<Rightarrow> string option \<Rightarrow> real option \<Rightarrow> thrown \<Rightarrow> outcome" where
  "caught n cid price e =
     \<lparr> network = n, url = probe_url n, ok = False, status = 0,
       error = Some (error_text e),
       nativeToken = native_token_of n cid price,
       data = None, summary = None \<rparr>"

section \<open>The bounded fan-out\<close>

text \<open>
  Everything one request takes from outside: the registry \<^verbatim>\<open>Network.ALL\<close>, the
  configured key, what the call to the price feed does, what the status call for the
  network at each index does, the clock, and for which numbers of arguments the
  engine refuses a call.
\<close>

record request =
  networks :: "network list"
  apiKey :: "string option"
  price_feed :: fetch_result
  relayer :: "nat \<Rightarrow> fetch_result"
  now :: string
  call_refused :: "nat \<Rightarrow> bool"

definition priced :: "request \<Rightarrow> pricing_stage" where
  "priced rq = price_stage (idsNeeded (resolve_all (networks rq))) (apiKey rq) (price_feed rq)"

text \<open>
  The locals \<^verbatim>\<open>coinGeckoId\<close> and \<^verbatim>\<open>usdPrice\<close> of the loop body for the index \<open>idx\<close>.
  They are read from tables that no longer change once the workers run, so their
  values are the same before and after a suspension.
\<close>

definition coinGeckoId_at :: "request \<Rightarrow> nat \<Rightarrow> string option" where
  "coinGeckoId_at rq idx =
     coinGeckoIdByNetworkName (resolve_all (networks rq)) (name (networks rq ! idx))"

definition usdPrice_at :: "request \<Rightarrow> nat \<Rightarrow> real option" where
  "usdPrice_at rq idx = usdPrice_of (pricesUsd (priced rq)) (coinGeckoId_at rq idx)"

text \<open>
  A worker is suspended at \<^verbatim>\<open>await fetch(url)\<close> or at \<^verbatim>\<open>await res.json()\<close>, holding its
  \<^verbatim>\<open>idx\<close> (and \<^verbatim>\<open>res\<close>), or it has returned.
\<close>

datatype wstate = AwaitFetch nat | AwaitJson nat response | Returned

text \<open>
  The variables shared by the workers: the cursor \<^verbatim>\<open>i\<close> and the array \<^verbatim>\<open>results\<close>,
  whose holes are \<open>None\<close>; the workers themselves; and the trace \<open>fetched\<close> of the
  indices for which \<^verbatim>\<open>fetch(url)\<close> has been called, in call order.
\<close>

record pool =
  cursor :: nat
  results :: "outcome option list"
  fetched :: "nat list"
  workers :: "wstate list"

definition concurrency :: nat where
  "concurrency = 12"

text \<open>\<^verbatim>\<open>results[idx] = v\<close> on a JavaScript array: a write past the end extends it with holes.\<close>

definition store :: "nat \<Rightarrow> 'a \<Rightarrow> 'a option list \<Rightarrow> 'a option list" where
  "store idx v xs =
     (if idx < length xs then xs[idx := Some v]
      else xs @ replicate (idx - length xs) None @ [Some v])"

text \<open>
  From the loop test to the next suspension: \<^verbatim>\<open>while (i < networks.length)\<close>,
  \<^verbatim>\<open>idx = i++\<close>, \<^verbatim>\<open>fetch(url)\<close>. Nothing else runs in between.
\<close>

definition loop_head :: "request \<Rightarrow> pool \<Rightarrow> wstate \<times> pool" where
  "loop_head rq st =
     (if cursor st < length (networks rq)
      then (AwaitFetch (cursor st),
            st\<lparr> cursor := cursor st + 1, fetched := fetched st @ [cursor st] \<rparr>)
      else (Returned, st))"

text \<open>A worker stores its outcome and goes round the loop.\<close>

definition record_outcome :: "request \<Rightarrow> nat \<Rightarrow> outcome \<Rightarrow> pool \<Rightarrow> wstate \<times> pool" where
  "record_outcome rq idx out st = loop_head rq (st\<lparr> results := store idx out (results st) \<rparr>)"

text \<open>A suspended worker runs on, up to its next suspension or its return.\<close>

definition resume_worker :: "request \<Rightarrow> wstate \<Rightarrow> pool \<Rightarrow> wstate \<times> pool" where
  "resume_worker rq w st =
     (case w of
        AwaitFetch idx \<Rightarrow>
          (let n = networks rq ! idx; cid = coinGeckoId_at rq idx; price = usdPrice_at rq idx in
           case relayer rq idx of
             Rejected e \<Rightarrow> record_outcome rq idx (caught n cid price e) st
           | Resolved res \<Rightarrow>
               if \<not> res_ok res then record_outcome rq idx (http_failure n cid price res) st
               else (AwaitJson idx res, st))
      | AwaitJson idx res \<Rightarrow>
          (let n = networks rq ! idx; cid = coinGeckoId_at rq idx; price = usdPrice_at rq idx in
           case res_json res of
             Inl e \<Rightarrow> record_outcome rq idx (caught n cid price e) st
           | Inr jsonRaw \<Rightarrow>
               (case enrichment_fault (call_refused rq) price jsonRaw of
                  Some e \<Rightarrow> record_outcome rq idx (caught n cid price e) st
                | None \<Rightarrow> record_outcome rq idx (success n cid price res jsonRaw) st))
      | Returned \<Rightarrow> (Returned, st))"

text \<open>The event loop resumes worker \<open>k\<close>; a worker that has returned never runs again.\<close>

definition resume :: "request \<Rightarrow> nat \<Rightarrow> pool \<Rightarrow> pool" where
  "resume rq k st =
     (if k < length (workers st)
      then (case resume_worker rq (workers st ! k) st of
              (w, st') \<Rightarrow> st'\<lparr> workers := (workers st')[k := w] \<rparr>)
      else st)"

text \<open>
  \<^verbatim>\<open>Array.from({ length: concurrency }, () => worker())\<close>: each call runs a new worker
  up to its first suspension (or to its return, when no index is left).
\<close>

definition call_worker :: "request \<Rightarrow> pool \<Rightarrow> pool" where
  "call_worker rq st =
     (case loop_head rq st of (w, st') \<Rightarrow> st'\<lparr> workers := workers st' @ [w] \<rparr>)"

definition start :: pool where
  "start = \<lparr> cursor = 0, results = [], fetched = [], workers = [] \<rparr>"

definition spawn :: "request \<Rightarrow> pool" where
  "spawn rq = (call_worker rq ^^ concurrency) start"

text \<open>
  A schedule is the order in which the event loop resumes the workers; \<open>run\<close> follows
  it from a given pool.
\<close>

definition run :: "request \<Rightarrow> nat list \<Rightarrow> pool \<Rightarrow> pool" where
  "run rq sched st = foldl (\<lambda>s k. resume rq k s) st sched"

definition all_returned :: "pool \<Rightarrow> bool" where
  "all_returned st = list_all (\<lambda>w. w = Returned) (workers st)"

section \<open>The snapshot\<close>

record pricing =
  apiKeyPresent :: bool
  idsRequested :: "string list"
  idsPriced :: "string list"
  pricing_error :: "string option"

record snapshot =
  generatedAt :: string
  pricing :: pricing
  count :: nat
  snapshot_results :: "outcome option list"

text \<open>The body of the response, from the pool that \<^verbatim>\<open>Promise.all\<close> has waited for.\<close>

definition respond :: "request \<Rightarrow> pool \<Rightarrow> snapshot" where
  "respond rq st =
     \<lparr> generatedAt = now rq,
       pricing = \<lparr> apiKeyPresent = (case apiKey rq of Some k \<Rightarrow> k \<noteq> [] | None \<Rightarrow> False),
                   idsRequested = idsNeeded (resolve_all (networks rq)),
                   idsPriced = map fst (pricesUsd (priced rq)),
                   pricing_error = pricingError (priced rq) \<rparr>,
       count = length (results st),
       snapshot_results = results st \<rparr>"

text \<open>
  \<^verbatim>\<open>onRequest\<close> under a schedule: the response is built once every worker has
  returned; \<open>None\<close> when the schedule ends before that.
\<close>

definition onRequest :: "request \<Rightarrow> nat list \<Rightarrow> snapshot option" where
  "onRequest rq sched =
     (let st = run rq sched (spawn rq) in
      if all_returned st then Some (respond rq st) else None)"

section \<open>What the proofs speak about\<close>

text \<open>
  The loop body for the index \<open>idx\<close> read in one piece, without its suspensions: the
  outcome that the worker holding \<open>idx\<close> stores.
\<close>

definition probe_outcome :: "request \<Rightarrow> nat \<Rightarrow> outcome" where
  "probe_outcome rq idx =
     (let n = networks rq ! idx; cid = coinGeckoId_at rq idx; price = usdPrice_at rq idx in
      case relayer rq idx of
        Rejected e \<Rightarrow> caught n cid price e
      | Resolved res \<Rightarrow>
          if \<not> res_ok res then http_failure n cid price res
          else (case res_json res of
                  Inl e \<Rightarrow> caught n cid price e
                | Inr jsonRaw \<Rightarrow>
                    (case enrichment_fault (call_refused rq) price jsonRaw of
                       Some e \<Rightarrow> caught n cid price e
                     | None \<Rightarrow> success n cid price res jsonRaw)))"

text \<open>The index a suspended worker holds.\<close>

definition in_flight :: "wstate \<Rightarrow> nat option" where
  "in_flight w = (case w of AwaitFetch idx \<Rightarrow> Some idx | AwaitJson idx res \<Rightarrow> Some idx | Returned \<Rightarrow> None)"

text \<open>
  The invariant of the pool: the cursor stays within the registry; the indices
  fetched so far are exactly those below the cursor, each once and in order; nothing
  is stored at or above the cursor; a suspended worker holds a claimed index (and the
  response it got for it); a worker returns only when the cursor is at the end; and
  every claimed index is either still held by a worker or stored with its outcome.
\<close>

definition worker_ok :: "request \<Rightarrow> pool \<Rightarrow> wstate \<Rightarrow> bool" where
  "worker_ok rq st w =
     (case w of
        AwaitFetch idx \<Rightarrow> idx < cursor st
      | AwaitJson idx res \<Rightarrow> idx < cursor st \<and> relayer rq idx = Resolved res \<and> res_ok res
      | Returned \<Rightarrow> cursor st = length (networks rq))"

definition stored :: "request \<Rightarrow> pool \<Rightarrow> nat \<Rightarrow> bool" where
  "stored rq st idx = (idx < length (results st) \<and> results st ! idx = Some (probe_outcome rq idx))"

definition pool_inv :: "request \<Rightarrow> pool \<Rightarrow> bool" where
  "pool_inv rq st =
     (cursor st \<le> length (networks rq) \<and>
      fetched st = [0..<cursor st] \<and>
      length (results st) \<le> cursor st \<and>
      (\<forall>k<length (workers st). worker_ok rq st (workers st ! k)) \<and>
      (\<forall>idx<cursor st. (\<exists>k<length (workers st). in_flight (workers st ! k) = Some idx) \<or> stored rq st idx))"

text \<open>
  The work left: two suspensions for each index not yet claimed and for each worker
  waiting for a response, one for each worker waiting for a body.
\<close>

definition pending :: "wstate \<Rightarrow> nat" where
  "pending w = (case w of AwaitFetch idx \<Rightarrow> 2 | AwaitJson idx res \<Rightarrow> 1 | Returned \<Rightarrow> 0)"

definition work_left :: "request \<Rightarrow> pool \<Rightarrow> nat" where
  "work_left rq st = 2 * (length (networks rq) - cursor st) + sum_list (map pending (workers st))"

text \<open>A schedule that always resumes the first worker that has not returned.\<close>

definition first_pending :: "pool \<Rightarrow> nat" where
  "first_pending st = length (takeWhile (\<lambda>w. w = Returned) (workers st))"

fun drain :: "request \<Rightarrow> nat \<Rightarrow> pool \<Rightarrow> nat list" where
  "drain rq 0 st = []"
| "drain rq (Suc fuel) st =
     (if all_returned st then []
      else first_pending st # drain rq fuel (resume rq (first_pending st) st))"

text \<open>That schedule for a whole request.\<close>

definition completing :: "request \<Rightarrow> nat list" where
  "completing rq = drain rq (work_left rq (spawn rq)) (spawn rq)"

section \<open>A small registry to run the aggregator on\<close>

definition mainnet :: network where
  "mainnet = \<lparr> name = ''mainnet'', nativeCurrency = Some \<lparr> symbol = ''ETH'', currency_name = ''Ether'' \<rparr> \<rparr>"

definition polygon :: network where
  "polygon = \<lparr> name = ''polygon'', nativeCurrency = Some \<lparr> symbol = ''POL'', currency_name = ''POL'' \<rparr> \<rparr>"

definition devnet :: network where
  "devnet = \<lparr> name = ''devnet'', nativeCurrency = None \<rparr>"

definition mainnet_status :: json where
  "mainnet_status =
     JObj [(''healthOK'', JBool True),
           (''senders'', JArr [JObj [(''index'', JNum 0), (''etherBalance'', JNum 0.01)],
                               JObj [(''index'', JNum 1)]]),
           (''ver'', JStr ''v1'')]"

definition xai :: network where
  "xai = \<lparr> name = ''xai'', nativeCurrency = Some \<lparr> symbol = ''XAI'', currency_name = ''Xai'' \<rparr> \<rparr>"

definition arbitrum :: network where
  "arbitrum = \<lparr> name = ''arbitrum'', nativeCurrency = Some \<lparr> symbol = ''ETH'', currency_name = ''Ether'' \<rparr> \<rparr>"

definition xai_status :: json where
  "xai_status =
     JObj [(''senders'', JArr [JObj [(''index'', JNum 0), (''etherBalance'', JNum 1.5)],
                               JObj [(''index'', JNum 1), (''etherBalance'', JNum 0.25)]])]"

definition arbitrum_status :: json where
  "arbitrum_status = JObj [(''healthOK'', JBool False)]"

text \<open>An engine that refuses a call with more than 100000 arguments.\<close>

definition engine_limit :: "nat \<Rightarrow> bool" where
  "engine_limit n = (100000 < n)"

definition fleet_relayer :: "nat \<Rightarrow> fetch_result" where
  "fleet_relayer idx =
     (if idx = 0 then Resolved \<lparr> res_status = 200, res_json = Inr mainnet_status \<rparr>
      else if idx = 1 then
        Resolved \<lparr> res_status = 503,
                   res_json = Inl (Thrown (Some ''Unexpected token'') ''SyntaxError: Unexpected token'') \<rparr>
      else if idx = 2 then Rejected (Thrown (Some ''fetch failed'') ''TypeError: fetch failed'')
      else if idx = 3 then Resolved \<lparr> res_status = 200, res_json = Inr xai_status \<rparr>
      else Resolved \<lparr> res_status = 200, res_json = Inr arbitrum_status \<rparr>)"

definition fleet :: request where
  "fleet = \<lparr> networks = [mainnet, polygon, devnet, xai, arbitrum], apiKey = None,
             price_feed = Resolved \<lparr> res_status = 200,
                                    res_json = Inr (JObj [(''ethereum'', JObj [(''usd'', JNum 2000)])]) \<rparr>,
             relayer = fleet_relayer, now = ''2026-02-10T00:00:00.000Z'',
             call_refused = engine_limit \<rparr>"

definition fleet_unpriced :: request where
  "fleet_unpriced = fleet\<lparr> price_feed := Resolved \<lparr> res_status = 429, res_json = Inr JNull \<rparr> \<rparr>"

definition fleet_order :: "nat list" where
  "fleet_order = [4, 2, 0, 1, 3, 0, 4, 3]"

definition fleet_down :: request where
  "fleet_down = fleet\<lparr> relayer := (relayer fleet)(1 := Rejected (Thrown None ''connection refused'')) \<rparr>"

text \<open>A registry with more networks than workers, all of them unreachable.\<close>

definition crowd :: request where
  "crowd = \<lparr> networks = replicate 13 devnet, apiKey = None,
             price_feed = Rejected (Thrown None ''offline''),
             relayer = (\<lambda>idx. Rejected (Thrown None ''offline'')),
             now = ''2026-02-10T00:00:00.000Z'',
             call_refused = engine_limit \<rparr>"

text \<open>
  A status whose only sender has a balance that cannot be converted to a number, and
  the registry with that status for its first network.
\<close>

definition hostile_status :: json where
  "hostile_status =
     JObj [(''senders'',
            JArr [JObj [(''etherBalance'', JObj [(''valueOf'', JNum 1), (''toString'', JNum 1)])]])]"

definition fleet_hostile :: request where
  "fleet_hostile =
     fleet\<lparr> relayer := (relayer fleet)(0 := Resolved \<lparr> res_status = 200, res_json = Inr hostile_status \<rparr>) \<rparr>"

section \<open>The pool keeps its invariant\<close>

lemma store_length: "length (store idx v xs) = max (length xs) (Suc idx)"
  by (auto simp: store_def)

lemma store_nth_same: "store idx v xs ! idx = Some v"
  by (auto simp: store_def nth_append)

lemma store_nth_other: "j \<noteq> idx \<Longrightarrow> j < length xs \<Longrightarrow> store idx v xs ! j = xs ! j"
  by (auto simp: store_def nth_append)

lemma loop_head_cases:
  assumes "loop_head rq st = (w, st')"
  shows "(cursor st < length (networks rq) \<and> w = AwaitFetch (cursor st) \<and>
            st' = st\<lparr> cursor := cursor st + 1, fetched := fetched st @ [cursor st] \<rparr>) \<or>
         (\<not> cursor st < length (networks rq) \<and> w = Returned \<and> st' = st)"
  using assms by (auto simp: loop_head_def split: if_splits)

lemma worker_ok_mono:
  assumes "worker_ok rq st w" "cursor st \<le> cursor st'" "cursor st' \<le> length (networks rq)"
  shows "worker_ok rq st' w"
  using assms by (cases w) (auto simp: worker_ok_def)

lemma in_flight_lt:
  assumes "worker_ok rq st w" "in_flight w = Some idx"
  shows "idx < cursor st"
  using assms by (cases w) (auto simp: worker_ok_def in_flight_def)

lemma stored_store_same:
  assumes "results st' = store idx (probe_outcome rq idx) (results st)"
  shows "stored rq st' idx"
  using assms by (simp add: stored_def store_length store_nth_same)

lemma stored_store_other:
  assumes "results st' = store idx v (results st)" "stored rq st j" "j \<noteq> idx"
  shows "stored rq st' j"
  using assms by (auto simp: stored_def store_length store_nth_other)

lemma inv_round:
  assumes inv: "pool_inv rq st"
    and k: "k < length (workers st)"
    and fl: "in_flight (workers st ! k) = Some idx"
    and ro: "record_outcome rq idx (probe_outcome rq idx) st = (w, st')"
  shows "pool_inv rq (st'\<lparr> workers := (workers st')[k := w] \<rparr>)"
proof -
  define st1 where "st1 = st\<lparr> results := store idx (probe_outcome rq idx) (results st) \<rparr>"
  have lh: "loop_head rq st1 = (w, st')"
    using ro by (simp add: record_outcome_def st1_def)
  have c_le: "cursor st \<le> length (networks rq)"
    and fe: "fetched st = [0..<cursor st]"
    and len: "length (results st) \<le> cursor st"
    and wok: "\<And>j. j < length (workers st) \<Longrightarrow> worker_ok rq st (workers st ! j)"
    and cov: "\<And>i. i < cursor st \<Longrightarrow>
               (\<exists>j<length (workers st). in_flight (workers st ! j) = Some i) \<or> stored rq st i"
    using inv by (auto simp: pool_inv_def)
  have idx: "idx < cursor st"
    using in_flight_lt [OF wok [OF k] fl] .
  let ?fin = "st'\<lparr> workers := (workers st')[k := w] \<rparr>"
  have res: "results ?fin = store idx (probe_outcome rq idx) (results st)"
    using loop_head_cases [OF lh] by (auto simp: st1_def)
  have ws: "workers ?fin = (workers st)[k := w]"
    using loop_head_cases [OF lh] by (auto simp: st1_def)
  have c_mono: "cursor st \<le> cursor ?fin"
    using loop_head_cases [OF lh] by (auto simp: st1_def)
  have c_fin: "cursor ?fin \<le> length (networks rq)"
    using loop_head_cases [OF lh] c_le by (auto simp: st1_def)
  have c_w: "worker_ok rq ?fin w"
    using loop_head_cases [OF lh] c_le by (auto simp: st1_def worker_ok_def)
  have f_fin: "fetched ?fin = [0..<cursor ?fin]"
    using loop_head_cases [OF lh] fe by (auto simp: st1_def)
  have l_fin: "length (results ?fin) \<le> cursor ?fin"
    using res len idx c_mono by (simp add: store_length)
  have w_fin: "\<forall>j<length (workers ?fin). worker_ok rq ?fin (workers ?fin ! j)"
  proof (intro allI impI)
    fix j assume j: "j < length (workers ?fin)"
    then have j': "j < length (workers st)" using ws by simp
    show "worker_ok rq ?fin (workers ?fin ! j)"
    proof (cases "j = k")
      case True
      then show ?thesis using c_w ws k by simp
    next
      case False
      then have "workers ?fin ! j = workers st ! j" using ws by simp
      then show ?thesis using worker_ok_mono [OF wok [OF j'] c_mono c_fin] by simp
    qed
  qed
  have cov_fin: "\<forall>i<cursor ?fin.
      (\<exists>j<length (workers ?fin). in_flight (workers ?fin ! j) = Some i) \<or> stored rq ?fin i"
  proof (intro allI impI)
    fix i assume i: "i < cursor ?fin"
    show "(\<exists>j<length (workers ?fin). in_flight (workers ?fin ! j) = Some i) \<or> stored rq ?fin i"
    proof (cases "i = idx")
      case True
      then show ?thesis using stored_store_same [OF res] by simp
    next
      case ne: False
      show ?thesis
      proof (cases "i < cursor st")
        case True
        from cov [OF True] show ?thesis
        proof
          assume "\<exists>j<length (workers st). in_flight (workers st ! j) = Some i"
          then obtain j where j: "j < length (workers st)" "in_flight (workers st ! j) = Some i"
            by blast
          then have "j \<noteq> k" using fl ne by auto
          then have "in_flight (workers ?fin ! j) = Some i" "j < length (workers ?fin)"
            using j ws by simp_all
          then show ?thesis by blast
        next
          assume "stored rq st i"
          then show ?thesis using stored_store_other [OF res _ ne] by simp
        qed
      next
        case False
        then have "w = AwaitFetch i"
          using loop_head_cases [OF lh] i by (auto simp: st1_def)
        then have "in_flight (workers ?fin ! k) = Some i" "k < length (workers ?fin)"
          using ws k by (simp_all add: in_flight_def)
        then show ?thesis by blast
      qed
    qed
  qed
  show ?thesis
    unfolding pool_inv_def using c_fin f_fin l_fin w_fin cov_fin by blast
qed

lemma inv_to_json:
  assumes inv: "pool_inv rq st"
    and k: "k < length (workers st)"
    and w: "workers st ! k = AwaitFetch idx"
    and r: "relayer rq idx = Resolved res" "res_ok res"
  shows "pool_inv rq (st\<lparr> workers := (workers st)[k := AwaitJson idx res] \<rparr>)"
proof -
  let ?fin = "st\<lparr> workers := (workers st)[k := AwaitJson idx res] \<rparr>"
  have wok: "\<And>j. j < length (workers st) \<Longrightarrow> worker_ok rq st (workers st ! j)"
    and cov: "\<And>i. i < cursor st \<Longrightarrow>
               (\<exists>j<length (workers st). in_flight (workers st ! j) = Some i) \<or> stored rq st i"
    using inv by (auto simp: pool_inv_def)
  have idx: "idx < cursor st"
    using wok [OF k] w by (simp add: worker_ok_def)
  have w_fin: "\<forall>j<length (workers ?fin). worker_ok rq ?fin (workers ?fin ! j)"
  proof (intro allI impI)
    fix j assume j: "j < length (workers ?fin)"
    then have j': "j < length (workers st)" by simp
    show "worker_ok rq ?fin (workers ?fin ! j)"
    proof (cases "j = k")
      case True
      then show ?thesis using k idx r by (simp add: worker_ok_def)
    next
      case False
      then have "workers ?fin ! j = workers st ! j" by simp
      then show ?thesis using worker_ok_mono [OF wok [OF j'], of ?fin] inv
        by (simp add: pool_inv_def)
    qed
  qed
  have fl: "\<And>j. j < length (workers st) \<Longrightarrow>
              in_flight (workers ?fin ! j) = in_flight (workers st ! j)"
    using w by (case_tac "j = k") (simp_all add: in_flight_def)
  have cov_fin: "\<forall>i<cursor ?fin.
      (\<exists>j<length (workers ?fin). in_flight (workers ?fin ! j) = Some i) \<or> stored rq ?fin i"
  proof (intro allI impI)
    fix i assume "i < cursor ?fin"
    then have "i < cursor st" by simp
    from cov [OF this] show
      "(\<exists>j<length (workers ?fin). in_flight (workers ?fin ! j) = Some i) \<or> stored rq ?fin i"
    proof
      assume "\<exists>j<length (workers st). in_flight (workers st ! j) = Some i"
      then obtain j where "j < length (workers st)" "in_flight (workers st ! j) = Some i"
        by blast
      then have "j < length (workers ?fin)" "in_flight (workers ?fin ! j) = Some i"
        using fl by simp_all
      then show ?thesis by blast
    next
      assume "stored rq st i"
      then show ?thesis by (simp add: stored_def)
    qed
  qed
  show ?thesis
    unfolding pool_inv_def using inv w_fin cov_fin by (simp add: pool_inv_def)
qed

lemma probe_outcome_rejected:
  "relayer rq idx = Rejected e \<Longrightarrow>
   probe_outcome rq idx = caught (networks rq ! idx) (coinGeckoId_at rq idx) (usdPrice_at rq idx) e"
  by (simp add: probe_outcome_def)

lemma probe_outcome_http:
  "relayer rq idx = Resolved res \<Longrightarrow> \<not> res_ok res \<Longrightarrow>
   probe_outcome rq idx = http_failure (networks rq ! idx) (coinGeckoId_at rq idx) (usdPrice_at rq idx) res"
  by (simp add: probe_outcome_def)

lemma probe_outcome_body:
  "relayer rq idx = Resolved res \<Longrightarrow> res_ok res \<Longrightarrow> res_json res = Inl e \<Longrightarrow>
   probe_outcome rq idx = caught (networks rq ! idx) (coinGeckoId_at rq idx) (usdPrice_at rq idx) e"
  by (simp add: probe_outcome_def)

lemma probe_outcome_fault:
  "relayer rq idx = Resolved res \<Longrightarrow> res_ok res \<Longrightarrow> res_json res = Inr j \<Longrightarrow>
   enrichment_fault (call_refused rq) (usdPrice_at rq idx) j = Some e \<Longrightarrow>
   probe_outcome rq idx = caught (networks rq ! idx) (coinGeckoId_at rq idx) (usdPrice_at rq idx) e"
  by (simp add: probe_outcome_def)

lemma probe_outcome_success:
  "relayer rq idx = Resolved res \<Longrightarrow> res_ok res \<Longrightarrow> res_json res = Inr j \<Longrightarrow>
   enrichment_fault (call_refused rq) (usdPrice_at rq idx) j = None \<Longrightarrow>
   probe_outcome rq idx = success (networks rq ! idx) (coinGeckoId_at rq idx) (usdPrice_at rq idx) res j"
  by (simp add: probe_outcome_def)

lemma inv_resume:
  assumes inv: "pool_inv rq st"
  shows "pool_inv rq (resume rq k st)"
proof (cases "k < length (workers st)")
  case False
  then show ?thesis using inv by (simp add: resume_def)
next
  case k: True
  have wok: "worker_ok rq st (workers st ! k)"
    using inv k by (simp add: pool_inv_def)
  show ?thesis
  proof (cases "workers st ! k")
    case Returned
    then have "resume rq k st = st\<lparr> workers := (workers st)[k := workers st ! k] \<rparr>"
      using k by (simp add: resume_def resume_worker_def)
    then show ?thesis using inv by simp
  next
    case (AwaitFetch idx)
    have fl: "in_flight (workers st ! k) = Some idx"
      using AwaitFetch by (simp add: in_flight_def)
    show ?thesis
    proof (cases "relayer rq idx")
      case (Rejected e)
      obtain w st' where ro: "record_outcome rq idx (probe_outcome rq idx) st = (w, st')"
        by (cases "record_outcome rq idx (probe_outcome rq idx) st")
      have "resume rq k st = st'\<lparr> workers := (workers st')[k := w] \<rparr>"
        using k AwaitFetch Rejected ro
        by (simp add: resume_def resume_worker_def probe_outcome_rejected)
      then show ?thesis using inv_round [OF inv k fl ro] by simp
    next
      case (Resolved res)
      show ?thesis
      proof (cases "res_ok res")
        case False
        obtain w st' where ro: "record_outcome rq idx (probe_outcome rq idx) st = (w, st')"
          by (cases "record_outcome rq idx (probe_outcome rq idx) st")
        have "resume rq k st = st'\<lparr> workers := (workers st')[k := w] \<rparr>"
          using k AwaitFetch Resolved False ro
          by (simp add: resume_def resume_worker_def probe_outcome_http)
        then show ?thesis using inv_round [OF inv k fl ro] by simp
      next
        case True
        have "resume rq k st = st\<lparr> workers := (workers st)[k := AwaitJson idx res] \<rparr>"
          using k AwaitFetch Resolved True by (simp add: resume_def resume_worker_def)
        then show ?thesis using inv_to_json [OF inv k AwaitFetch Resolved True] by simp
      qed
    qed
  next
    case (AwaitJson idx res)
    have fl: "in_flight (workers st ! k) = Some idx"
      using AwaitJson by (simp add: in_flight_def)
    have r: "relayer rq idx = Resolved res" "res_ok res"
      using wok AwaitJson by (simp_all add: worker_ok_def)
    obtain w st' where ro: "record_outcome rq idx (probe_outcome rq idx) st = (w, st')"
      by (cases "record_outcome rq idx (probe_outcome rq idx) st")
    have "resume rq k st = st'\<lparr> workers := (workers st')[k := w] \<rparr>"
    proof (cases "res_json res")
      case (Inl e)
      then show ?thesis using k AwaitJson r ro
        by (simp add: resume_def resume_worker_def probe_outcome_body)
    next
      case (Inr j)
      show ?thesis
      proof (cases "enrichment_fault (call_refused rq) (usdPrice_at rq idx) j")
        case None
        then show ?thesis using k AwaitJson r ro Inr
          by (simp add: resume_def resume_worker_def probe_outcome_success)
      next
        case (Some e)
        then show ?thesis using k AwaitJson r ro Inr
          by (simp add: resume_def resume_worker_def probe_outcome_fault)
      qed
    qed
    then show ?thesis using inv_round [OF inv k fl ro] by simp
  qed
qed

lemma inv_run:
  "pool_inv rq st \<Longrightarrow> pool_inv rq (run rq sched st)"
  unfolding run_def by (induction sched arbitrary: st) (simp_all add: inv_resume)

lemma inv_start: "pool_inv rq start"
  by (simp add: pool_inv_def start_def)

lemma inv_call_worker:
  assumes inv: "pool_inv rq st"
  shows "pool_inv rq (call_worker rq st)"
proof -
  obtain w st' where lh: "loop_head rq st = (w, st')"
    by (cases "loop_head rq st")
  let ?fin = "st'\<lparr> workers := workers st' @ [w] \<rparr>"
  have fin: "call_worker rq st = ?fin"
    using lh by (simp add: call_worker_def)
  have c_le: "cursor st \<le> length (networks rq)"
    and fe: "fetched st = [0..<cursor st]"
    and len: "length (results st) \<le> cursor st"
    and wok: "\<And>j. j < length (workers st) \<Longrightarrow> worker_ok rq st (workers st ! j)"
    and cov: "\<And>i. i < cursor st \<Longrightarrow>
               (\<exists>j<length (workers st). in_flight (workers st ! j) = Some i) \<or> stored rq st i"
    using inv by (auto simp: pool_inv_def)
  have ws: "workers ?fin = workers st @ [w]"
    and res: "results ?fin = results st"
    and c_mono: "cursor st \<le> cursor ?fin"
    and c_fin: "cursor ?fin \<le> length (networks rq)"
    and f_fin: "fetched ?fin = [0..<cursor ?fin]"
    and c_w: "worker_ok rq ?fin w"
    using loop_head_cases [OF lh] c_le fe by (auto simp: worker_ok_def)
  have l_fin: "length (results ?fin) \<le> cursor ?fin"
    using res len c_mono by simp
  have w_fin: "\<forall>j<length (workers ?fin). worker_ok rq ?fin (workers ?fin ! j)"
  proof (intro allI impI)
    fix j assume j: "j < length (workers ?fin)"
    show "worker_ok rq ?fin (workers ?fin ! j)"
    proof (cases "j < length (workers st)")
      case True
      then have "workers ?fin ! j = workers st ! j" using ws by (simp add: nth_append)
      then show ?thesis using worker_ok_mono [OF wok [OF True] c_mono c_fin] by simp
    next
      case False
      then have "j = length (workers st)" using j ws by simp
      then have "workers ?fin ! j = w" using ws by simp
      then show ?thesis using c_w by simp
    qed
  qed
  have cov_fin: "\<forall>i<cursor ?fin.
      (\<exists>j<length (workers ?fin). in_flight (workers ?fin ! j) = Some i) \<or> stored rq ?fin i"
  proof (intro allI impI)
    fix i assume i: "i < cursor ?fin"
    show "(\<exists>j<length (workers ?fin). in_flight (workers ?fin ! j) = Some i) \<or> stored rq ?fin i"
    proof (cases "i < cursor st")
      case True
      from cov [OF True] show ?thesis
      proof
        assume "\<exists>j<length (workers st). in_flight (workers st ! j) = Some i"
        then obtain j where j: "j < length (workers st)" "in_flight (workers st ! j) = Some i"
          by blast
        then have "in_flight (workers ?fin ! j) = Some i" "j < length (workers ?fin)"
          using ws by (simp_all add: nth_append)
        then show ?thesis by blast
      next
        assume "stored rq st i"
        then show ?thesis using res by (simp add: stored_def)
      qed
    next
      case False
      then have "w = AwaitFetch i"
        using loop_head_cases [OF lh] i by auto
      then have "in_flight (workers ?fin ! length (workers st)) = Some i"
          "length (workers st) < length (workers ?fin)"
        using ws by (simp_all add: in_flight_def)
      then show ?thesis by blast
    qed
  qed
  show ?thesis
    unfolding fin pool_inv_def using c_fin f_fin l_fin w_fin cov_fin by blast
qed

lemma inv_calls: "pool_inv rq ((call_worker rq ^^ m) start)"
  by (induction m) (simp_all add: inv_start inv_call_worker)

lemma inv_spawn: "pool_inv rq (spawn rq)"
  unfolding spawn_def by (rule inv_calls)

lemma inv_reachable: "pool_inv rq (run rq sched (spawn rq))"
  by (rule inv_run [OF inv_spawn])

lemma length_workers_call: "length (workers (call_worker rq st)) = Suc (length (workers st))"
  by (auto simp: call_worker_def loop_head_def)

lemma length_workers_calls: "length (workers ((call_worker rq ^^ m) start)) = m"
  by (induction m) (simp_all add: length_workers_call start_def)

lemma length_workers_resume: "length (workers (resume rq k st)) = length (workers st)"
proof (cases "k < length (workers st)")
  case False
  then show ?thesis by (simp add: resume_def)
next
  case True
  obtain w st' where rw: "resume_worker rq (workers st ! k) st = (w, st')"
    by (cases "resume_worker rq (workers st ! k) st")
  have "workers st' = workers st"
    using rw
    by (auto simp: resume_worker_def record_outcome_def loop_head_def Let_def
        split: wstate.splits fetch_result.splits sum.splits option.splits if_splits)
  then show ?thesis using True rw by (simp add: resume_def)
qed

lemma length_workers_run: "length (workers (run rq sched st)) = length (workers st)"
  unfolding run_def by (induction sched arbitrary: st) (simp_all add: length_workers_resume)

lemma length_workers_reachable: "length (workers (run rq sched (spawn rq))) = concurrency"
  by (simp add: length_workers_run spawn_def length_workers_calls)

lemma all_returned_nth:
  "all_returned st \<Longrightarrow> k < length (workers st) \<Longrightarrow> workers st ! k = Returned"
  by (simp add: all_returned_def list_all_length)

lemma final_results:
  assumes inv: "pool_inv rq st" and fin: "all_returned st" and ne: "workers st \<noteq> []"
  shows "results st = map (\<lambda>idx. Some (probe_outcome rq idx)) [0..<length (networks rq)]"
proof -
  have "worker_ok rq st (workers st ! 0)"
    using inv ne by (simp add: pool_inv_def)
  then have c: "cursor st = length (networks rq)"
    using all_returned_nth [OF fin, of 0] ne by (simp add: worker_ok_def)
  have st: "stored rq st idx" if "idx < length (networks rq)" for idx
  proof -
    have "\<not> (\<exists>k<length (workers st). in_flight (workers st ! k) = Some idx)"
      using all_returned_nth [OF fin] by (auto simp: in_flight_def)
    then show ?thesis using inv that c by (auto simp: pool_inv_def)
  qed
  have le: "length (results st) \<le> length (networks rq)"
    using inv c by (simp add: pool_inv_def)
  have ge: "length (networks rq) \<le> length (results st)"
  proof (cases "length (networks rq)")
    case 0
    then show ?thesis by simp
  next
    case (Suc m)
    then have "stored rq st m" using st by simp
    then show ?thesis using Suc by (simp add: stored_def)
  qed
  show ?thesis
  proof (rule nth_equalityI)
    show "length (results st) = length (map (\<lambda>idx. Some (probe_outcome rq idx)) [0..<length (networks rq)])"
      using le ge by simp
  next
    fix i assume "i < length (results st)"
    then have "i < length (networks rq)" using le by simp
    then show "results st ! i = map (\<lambda>idx. Some (probe_outcome rq idx)) [0..<length (networks rq)] ! i"
      using st [of i] by (simp add: stored_def)
  qed
qed

lemma final_reachable:
  assumes "all_returned (run rq sched (spawn rq))"
  shows "results (run rq sched (spawn rq)) =
         map (\<lambda>idx. Some (probe_outcome rq idx)) [0..<length (networks rq)]"
proof -
  have "workers (run rq sched (spawn rq)) \<noteq> []"
    using length_workers_reachable [of rq sched] by (auto simp: concurrency_def)
  then show ?thesis using final_results [OF inv_reachable assms] by simp
qed

lemma probe_outcome_network: "network (probe_outcome rq idx) = networks rq ! idx"
  by (simp add: probe_outcome_def caught_def http_failure_def success_def Let_def
      split: fetch_result.splits sum.splits option.splits)

lemma snapshot_outcome:
  assumes "onRequest rq sched = Some snap" and "idx < length (networks rq)"
  shows "snapshot_results snap ! idx = Some (probe_outcome rq idx)"
proof -
  let ?st = "run rq sched (spawn rq)"
  have fin: "all_returned ?st" and snap: "snap = respond rq ?st"
    using assms(1) by (auto simp: onRequest_def Let_def split: if_splits)
  show ?thesis
    using final_reachable [OF fin] snap assms(2) by (simp add: respond_def)
qed

subsection \<open>Every run can be completed\<close>

lemma run_Cons: "run rq (k # ks) st = run rq ks (resume rq k st)"
  by (simp add: run_def)

lemma run_append: "run rq (ks @ ks') st = run rq ks' (run rq ks st)"
  by (simp add: run_def)

lemma resume_worker_progress:
  assumes "resume_worker rq w st = (w', st')" and "w \<noteq> Returned"
  shows "workers st' = workers st \<and>
         2 * (length (networks rq) - cursor st') + pending w' <
         2 * (length (networks rq) - cursor st) + pending w"
  using assms
  by (auto simp: resume_worker_def record_outcome_def loop_head_def pending_def Let_def
      split: wstate.splits fetch_result.splits sum.splits option.splits if_splits)

lemma pending_le_sum:
  "k < length ws \<Longrightarrow> pending (ws ! k) \<le> sum_list (map pending ws)"
proof -
  assume "k < length ws"
  then have "pending (ws ! k) \<in> set (map pending ws)" by simp
  then show ?thesis by (simp add: member_le_sum_list)
qed

lemma work_left_resume:
  assumes k: "k < length (workers st)" and w: "workers st ! k \<noteq> Returned"
  shows "work_left rq (resume rq k st) < work_left rq st"
proof -
  obtain w' st' where rw: "resume_worker rq (workers st ! k) st = (w', st')"
    by (cases "resume_worker rq (workers st ! k) st")
  note p = resume_worker_progress [OF rw w]
  have r: "resume rq k st = st'\<lparr> workers := (workers st)[k := w'] \<rparr>"
    using k rw p by (simp add: resume_def)
  have upd: "sum_list (map pending ((workers st)[k := w'])) =
        sum_list (map pending (workers st)) + pending w' - pending (workers st ! k)"
    using k by (simp add: map_update sum_list_update)
  have less: "2 * (length (networks rq) - cursor st') + pending w' <
              2 * (length (networks rq) - cursor st) + pending (workers st ! k)"
    using p by simp
  have "work_left rq (resume rq k st) =
        2 * (length (networks rq) - cursor st') +
        (sum_list (map pending (workers st)) + pending w' - pending (workers st ! k))"
    by (simp add: r work_left_def upd)
  then show ?thesis
    using less pending_le_sum [OF k] unfolding work_left_def by linarith
qed

lemma first_pending_lt:
  assumes "\<not> all_returned st"
  shows "first_pending st < length (workers st) \<and> workers st ! first_pending st \<noteq> Returned"
proof -
  have "takeWhile (\<lambda>w. w = Returned) (workers st) \<noteq> workers st"
    using assms by (simp add: all_returned_def list_all_iff)
  then have lt: "first_pending st < length (workers st)"
    unfolding first_pending_def
    by (metis length_takeWhile_le le_neq_implies_less takeWhile_eq_take take_all_iff order_refl)
  then show ?thesis
    using nth_length_takeWhile [of "\<lambda>w. w = Returned" "workers st"]
    by (simp add: first_pending_def)
qed

lemma no_work_left:
  assumes "work_left rq st = 0"
  shows "all_returned st"
proof -
  have "\<forall>w\<in>set (workers st). pending w = 0"
    using assms by (simp add: work_left_def)
  moreover have "w = Returned" if "pending w = 0" for w
    using that by (cases w) (simp_all add: pending_def)
  ultimately have "\<forall>w\<in>set (workers st). w = Returned"
    by blast
  then show ?thesis by (simp add: all_returned_def list_all_iff)
qed

lemma drain_completes:
  "work_left rq st \<le> fuel \<Longrightarrow> all_returned (run rq (drain rq fuel st) st)"
proof (induction fuel arbitrary: st)
  case 0
  then show ?case by (simp add: run_def no_work_left)
next
  case (Suc fuel)
  show ?case
  proof (cases "all_returned st")
    case True
    then show ?thesis by (simp add: run_def)
  next
    case False
    note fp = first_pending_lt [OF False]
    have "work_left rq (resume rq (first_pending st) st) \<le> fuel"
      using work_left_resume [of "first_pending st" st rq] fp Suc.prems by simp
    then show ?thesis
      using False Suc.IH by (simp add: run_Cons)
  qed
qed

lemma onRequest_completes:
  "onRequest rq (sched @ drain rq (work_left rq (run rq sched (spawn rq))) (run rq sched (spawn rq))) =
   Some (respond rq (run rq (sched @ drain rq (work_left rq (run rq sched (spawn rq)))
                                 (run rq sched (spawn rq))) (spawn rq)))"
  using drain_completes [of rq "run rq sched (spawn rq)" "work_left rq (run rq sched (spawn rq))"]
  by (simp add: onRequest_def run_append)

lemma probe_outcome_cong:
  assumes "networks rq' = networks rq" "apiKey rq' = apiKey rq" "price_feed rq' = price_feed rq"
    and "call_refused rq' = call_refused rq"
    and "relayer rq' idx = relayer rq idx"
  shows "probe_outcome rq' idx = probe_outcome rq idx"
proof -
  have h: "coinGeckoId_at rq' idx = coinGeckoId_at rq idx" "usdPrice_at rq' idx = usdPrice_at rq idx"
    using assms by (simp_all add: coinGeckoId_at_def usdPrice_at_def priced_def)
  show ?thesis
    unfolding probe_outcome_def h assms(1,4,5) by (rule refl)
qed

lemma fold_resolve_other:
  "nm \<notin> name ` set nets \<Longrightarrow>
   coinGeckoIdByNetworkName (fold resolve_step nets r) nm = coinGeckoIdByNetworkName r nm"
  by (induction nets arbitrary: r) (auto simp: resolve_step_def Let_def)

lemma fold_resolve_distinct:
  "distinct (map name nets) \<Longrightarrow> n \<in> set nets \<Longrightarrow>
   coinGeckoIdByNetworkName (fold resolve_step nets r) (name n) = resolve_id n"
proof (induction nets arbitrary: r)
  case Nil
  then show ?case by simp
next
  case (Cons a nets)
  show ?case
  proof (cases "n = a")
    case True
    have "name a \<notin> name ` set nets" using Cons.prems by simp
    then have "coinGeckoIdByNetworkName (fold resolve_step nets (resolve_step a r)) (name a) =
               coinGeckoIdByNetworkName (resolve_step a r) (name a)"
      by (rule fold_resolve_other)
    also have "\<dots> = resolve_id a"
      by (simp add: resolve_step_def Let_def)
    finally show ?thesis using True by simp
  next
    case False
    then show ?thesis using Cons by simp
  qed
qed

lemma coinGeckoId_at_distinct:
  "distinct (map name (networks rq)) \<Longrightarrow> idx < length (networks rq) \<Longrightarrow>
   coinGeckoId_at rq idx = resolve_id (networks rq ! idx)"
  by (simp add: coinGeckoId_at_def resolve_all_def fold_resolve_distinct)

lemma probe_outcome_token:
  "nativeToken (probe_outcome rq idx) =
     native_token_of (networks rq ! idx) (coinGeckoId_at rq idx) (usdPrice_at rq idx)"
  by (simp add: probe_outcome_def caught_def http_failure_def success_def Let_def
      split: fetch_result.splits sum.splits option.splits)

lemma onRequest_completing:
  "onRequest rq (completing rq) = Some (respond rq (run rq (completing rq) (spawn rq)))"
  using onRequest_completes [of rq "[]"] by (simp add: completing_def run_def)

lemma inv_worker_ok:
  "pool_inv rq st \<Longrightarrow> k < length (workers st) \<Longrightarrow> worker_ok rq st (workers st ! k)"
  by (simp add: pool_inv_def)

lemma final_cursor:
  assumes "all_returned (run rq sched (spawn rq))"
  shows "cursor (run rq sched (spawn rq)) = length (networks rq)"
    and "fetched (run rq sched (spawn rq)) = [0..<length (networks rq)]"
proof -
  let ?st = "run rq sched (spawn rq)"
  have inv: "pool_inv rq ?st" by (rule inv_reachable)
  have k: "0 < length (workers ?st)"
    by (simp add: length_workers_reachable concurrency_def)
  have "worker_ok rq ?st (workers ?st ! 0)" "workers ?st ! 0 = Returned"
    using inv_worker_ok [OF inv k] all_returned_nth [OF assms k] by simp_all
  then show c: "cursor ?st = length (networks rq)"
    by (simp add: worker_ok_def)
  show "fetched ?st = [0..<length (networks rq)]"
    using inv c by (simp add: pool_inv_def)
qed

lemma probe_frame:
  assumes "networks rq' = networks rq" "apiKey rq' = apiKey rq" "price_feed rq' = price_feed rq"
  shows "coinGeckoId_at rq' idx = coinGeckoId_at rq idx" "usdPrice_at rq' idx = usdPrice_at rq idx"
  using assms by (simp_all add: coinGeckoId_at_def usdPrice_at_def priced_def)

lemma http_failure_ignores_body:
  "http_failure n cid price (res\<lparr> res_json := body \<rparr>) = http_failure n cid price res"
  by (simp add: http_failure_def)

lemma failure_fields:
  "\<not> ok (http_failure n cid price res)"
  "status (http_failure n cid price res) = res_status res"
  "error (http_failure n cid price res) = Some (''HTTP '' @ show_nat (res_status res))"
  "data (http_failure n cid price res) = None"
  "summary (http_failure n cid price res) = None"
  "\<not> ok (caught n cid price e)"
  "status (caught n cid price e) = 0"
  "error (caught n cid price e) = Some (error_text e)"
  "data (caught n cid price e) = None"
  "summary (caught n cid price e) = None"
  by (simp_all add: http_failure_def caught_def)

lemma error_text_message: "message e = Some m \<Longrightarrow> error_text e = m"
  by (simp add: error_text_def)

subsection \<open>The pool when the workers have been spawned\<close>

lemma call_worker_eq:
  "call_worker rq st =
     (if cursor st < length (networks rq)
      then st\<lparr> cursor := cursor st + 1, fetched := fetched st @ [cursor st],
               workers := workers st @ [AwaitFetch (cursor st)] \<rparr>
      else st\<lparr> workers := workers st @ [Returned] \<rparr>)"
  by (simp add: call_worker_def loop_head_def)

lemma calls_eq:
  "(call_worker rq ^^ m) start =
     \<lparr> cursor = min m (length (networks rq)), results = [],
       fetched = [0..<min m (length (networks rq))],
       workers = map AwaitFetch [0..<min m (length (networks rq))] @
                 replicate (m - length (networks rq)) Returned \<rparr>"
proof (induction m)
  case 0
  show ?case by (simp add: start_def)
next
  case (Suc m)
  show ?case
  proof (cases "m < length (networks rq)")
    case True
    then show ?thesis using Suc by (simp add: call_worker_eq min_def)
  next
    case False
    then show ?thesis using Suc
      by (simp add: call_worker_eq min_def Suc_diff_le replicate_append_same)
  qed
qed

lemma spawn_eq:
  "spawn rq =
     \<lparr> cursor = min concurrency (length (networks rq)), results = [],
       fetched = [0..<min concurrency (length (networks rq))],
       workers = map AwaitFetch [0..<min concurrency (length (networks rq))] @
                 replicate (concurrency - length (networks rq)) Returned \<rparr>"
  unfolding spawn_def by (rule calls_eq)

lemma spawn_pending:
  "length (filter (\<lambda>w. w \<noteq> Returned) (workers (spawn rq))) =
     min concurrency (length (networks rq))"
proof -
  have a: "filter (\<lambda>w. w \<noteq> Returned) (map AwaitFetch xs) = map AwaitFetch xs" for xs
    by (induction xs) simp_all
  have b: "filter (\<lambda>w. w \<noteq> Returned) (replicate m Returned) = []" for m
    by simp
  show ?thesis
    by (simp add: spawn_eq a b)
qed

lemma resume_claims:
  assumes fl: "in_flight (workers (resume rq k st) ! k) = Some idx"
    and old: "in_flight (workers st ! k) \<noteq> Some idx"
    and k: "k < length (workers st)"
  shows "idx = cursor st \<and> cursor (resume rq k st) = cursor st + 1 \<and>
         fetched (resume rq k st) = fetched st @ [idx]"
proof -
  obtain w st' where rw: "resume_worker rq (workers st ! k) st = (w, st')"
    by (cases "resume_worker rq (workers st ! k) st")
  have ws: "workers st' = workers st"
    using rw
    by (auto simp: resume_worker_def record_outcome_def loop_head_def Let_def
        split: wstate.splits fetch_result.splits sum.splits option.splits if_splits)
  have r: "resume rq k st = st'\<lparr> workers := (workers st)[k := w] \<rparr>"
    using k rw ws by (simp add: resume_def)
  have w: "in_flight w = Some idx"
    using fl k unfolding r by simp
  have "idx = cursor st \<and> cursor st' = cursor st + 1 \<and> fetched st' = fetched st @ [idx]"
    using rw w old
    by (auto simp: resume_worker_def record_outcome_def loop_head_def Let_def in_flight_def
        split: wstate.splits fetch_result.splits sum.splits option.splits if_splits)
  then show ?thesis unfolding r by simp
qed

lemma results_grow: "length (results st) \<le> length (results (resume rq k st))"
proof (cases "k < length (workers st)")
  case False
  then show ?thesis by (simp add: resume_def)
next
  case True
  obtain w st' where rw: "resume_worker rq (workers st ! k) st = (w, st')"
    by (cases "resume_worker rq (workers st ! k) st")
  have "length (results st) \<le> length (results st')"
    using rw
    by (auto simp: resume_worker_def record_outcome_def loop_head_def Let_def store_length
        split: wstate.splits fetch_result.splits sum.splits option.splits if_splits)
  then show ?thesis using True rw by (simp add: resume_def)
qed

section \<open>Facts about one probe and its enrichment\<close>

lemma digit_char_neq_e: "d < 10 \<Longrightarrow> digit_char d \<noteq> CHR ''e''"
proof
  assume d: "d < 10" and eq: "digit_char d = CHR ''e''"
  have "of_char (digit_char d) = (48 + d) mod 256"
    by (simp add: digit_char_def)
  moreover have "of_char (CHR ''e'') = (101::nat)" by simp
  ultimately show False using d eq by simp
qed

lemma show_nat_no_e: "CHR ''e'' \<notin> set (show_nat n)"
proof (induction n rule: show_nat.induct)
  case (1 n)
  show ?case
  proof (cases "n < 10")
    case True
    then show ?thesis using digit_char_neq_e [of n]
      by (subst show_nat.simps) auto
  next
    case False
    then show ?thesis using 1 digit_char_neq_e [of "n mod 10"]
      by (subst show_nat.simps) auto
  qed
qed

lemma index_keys_etherBalance: "map_of (index_keys xs) ''etherBalance'' = None"
proof -
  have "''etherBalance'' \<notin> fst ` set (index_keys xs)"
  proof
    assume "''etherBalance'' \<in> fst ` set (index_keys xs)"
    then obtain i where "''etherBalance'' = show_nat i"
      by (auto simp: index_keys_def dest!: set_zip_leftD)
    then have "CHR ''e'' \<in> set (show_nat i)"
      by (metis list.set_intros(1))
    then show False using show_nat_no_e by blast
  qed
  then show ?thesis by (simp add: map_of_eq_None_iff)
qed

lemma spread_etherBalance: "map_of (spread s) ''etherBalance'' = get_prop s ''etherBalance''"
  by (cases s) (simp_all add: spread_def get_prop_def index_keys_etherBalance)

lemma enrich_sender_etherBalance:
  "get_prop (enrich_sender price s) ''etherBalance'' = get_prop s ''etherBalance''"
  by (simp add: enrich_sender_def get_prop_def update_conv' spread_etherBalance)

lemma balance_of_enrich: "balance_of (enrich_sender price s) = balance_of s"
  by (simp add: balance_of_def enrich_sender_etherBalance)

lemma enrich_sender_usdValue:
  "get_prop (enrich_sender price s) ''usdValue'' =
     Some (case price of Some p \<Rightarrow> JNum (balance_of s * p) | None \<Rightarrow> JNull)"
  by (simp add: enrich_sender_def get_prop_def update_conv')

lemma map_balance_enriched:
  "map balance_of (enrichedSenders price jsonRaw) = map balance_of (senders_of jsonRaw)"
  by (simp add: enrichedSenders_def balance_of_enrich)

lemma ok_probe_outcome:
  "ok (probe_outcome rq idx) \<longleftrightarrow>
     (\<exists>res j. relayer rq idx = Resolved res \<and> res_ok res \<and> res_json res = Inr j \<and>
             enrichment_fault (call_refused rq) (usdPrice_at rq idx) j = None)"
  by (auto simp: probe_outcome_def caught_def http_failure_def success_def Let_def
      split: fetch_result.splits sum.splits option.splits)

lemma zero_test_enrich: "zero_test_throws (enrich_sender price s) = zero_test_throws s"
  by (simp add: zero_test_throws_def enrich_sender_etherBalance)

lemma enrichment_fault_any_price:
  "enrichment_fault refused price j = enrichment_fault refused price' j"
  by (simp add: enrichment_fault_def enrichedSenders_def list_ex_iff zero_test_enrich)

lemma ok_probe_outcomeD:
  assumes "ok (probe_outcome rq idx)"
  obtains res j where "relayer rq idx = Resolved res" "res_ok res" "res_json res = Inr j"
    "enrichment_fault (call_refused rq) (usdPrice_at rq idx) j = None"
    "probe_outcome rq idx =
       success (networks rq ! idx) (coinGeckoId_at rq idx) (usdPrice_at rq idx) res j"
  using assms ok_probe_outcome [of rq idx] by (auto simp: probe_outcome_def)

lemma success_fields:
  "ok (success n cid price res j)"
  "status (success n cid price res j) = res_status res"
  "error (success n cid price res j) = None"
  "usdPrice (nativeToken (success n cid price res j)) = price"
  "summary (success n cid price res j) = Some (summarise price (enrichedSenders price j))"
  "data (success n cid price res j) = Some (enriched_data j (enrichedSenders price j))"
  by (simp_all add: success_def native_token_of_def Let_def)

lemma enriched_data_senders: "get_prop (enriched_data j en) ''senders'' = Some (JArr en)"
  by (simp add: enriched_data_def get_prop_def update_conv')

lemma enriched_data_other:
  assumes "k \<noteq> ''senders''" and "get_prop j k = Some v"
  shows "get_prop (enriched_data j en) k = Some v"
  using assms by (cases j) (simp_all add: enriched_data_def get_prop_def update_conv' is_object_def spread_def)

lemma enriched_data_object:
  "enriched_data (JObj kvs) en = JObj (AList.update ''senders'' (JArr en) kvs)"
  by (simp add: enriched_data_def is_object_def spread_def)

lemma summarise_unpriced: "totalUsd (summarise None en) = None" "minUsd (summarise None en) = None"
  by (simp_all add: summarise_def Let_def)

lemma summarise_count: "senderCount (summarise price en) = length en"
  by (simp add: summarise_def Let_def)

lemma summarise_minNative:
  "minNative (summarise price en) = (if en = [] then None else Some (Min (balance_of ` set en)))"
proof (cases en)
  case Nil
  then show ?thesis by (simp add: summarise_def Let_def)
next
  case (Cons e es)
  have "fold min (map balance_of es) (balance_of e) = Min (set (balance_of e # map balance_of es))"
    by (rule Min.set_eq_fold [symmetric])
  then show ?thesis using Cons by (simp add: summarise_def Let_def)
qed

lemma senders_of_not_list:
  "(\<forall>xs. get_prop j ''senders'' \<noteq> Some (JArr xs)) \<Longrightarrow> senders_of j = []"
  by (auto simp: senders_of_def split: option.splits json.splits)

lemma fetchUsdPrices_http:
  "ids \<noteq> [] \<Longrightarrow> \<not> res_ok res \<Longrightarrow>
   fetchUsdPrices ids key (Resolved res) =
     Inl (new_Error (''CoinGecko HTTP '' @ show_nat (res_status res)))"
  by (simp add: fetchUsdPrices_def)

lemma priced_failed:
  assumes "fetchUsdPrices (idsNeeded (resolve_all (networks rq))) (apiKey rq) (price_feed rq) = Inl e"
  shows "priced rq = \<lparr> pricesUsd = [], pricingError = Some (error_text e) \<rparr>"
  using assms by (simp add: priced_def price_stage_def)

lemma usdPrice_of_empty: "usdPrice_of [] cid = None"
  by (simp add: usdPrice_of_def split: option.splits)

lemma unpriced_senders:
  "\<forall>t\<in>set (enrichedSenders None j). get_prop t ''usdValue'' = Some JNull"
  by (auto simp: enrichedSenders_def enrich_sender_usdValue)

lemma ok_price_feed:
  "ok (probe_outcome (rq\<lparr> price_feed := feed \<rparr>) idx) = ok (probe_outcome rq idx)"
  using enrichment_fault_any_price
    [of "call_refused rq" "usdPrice_at (rq\<lparr> price_feed := feed \<rparr>) idx" _ "usdPrice_at rq idx"]
  by (simp add: ok_probe_outcome)

section \<open>Running the small registry\<close>

lemma fleet_senders:
  "senders_of mainnet_status =
     [JObj [(''index'', JNum 0), (''etherBalance'', JNum 0.01)], JObj [(''index'', JNum 1)]]"
  "senders_of xai_status =
     [JObj [(''index'', JNum 0), (''etherBalance'', JNum 1.5)],
      JObj [(''index'', JNum 1), (''etherBalance'', JNum 0.25)]]"
  "senders_of arbitrum_status = []"
  by (simp_all add: senders_of_def get_prop_def mainnet_status_def xai_status_def arbitrum_status_def)

lemma fleet_no_fault:
  "enrichment_fault engine_limit price mainnet_status = None"
  "enrichment_fault engine_limit price xai_status = None"
  "enrichment_fault engine_limit price arbitrum_status = None"
  by (simp_all add: enrichment_fault_def enrichedSenders_def list_ex_iff zero_test_enrich
      fleet_senders engine_limit_def)
    (simp_all add: zero_test_throws_def get_prop_def)

lemma fleet_spawn:
  assumes "length (networks rq) = 5"
  shows "spawn rq =
     \<lparr> cursor = 5, results = [], fetched = [0, 1, 2, 3, 4],
       workers = [AwaitFetch 0, AwaitFetch 1, AwaitFetch 2, AwaitFetch 3, AwaitFetch 4] @
                 replicate 7 Returned \<rparr>"
  using assms by (simp add: spawn_eq concurrency_def upt_conv_Cons)

lemma fleet_done:
  assumes "length (networks rq) = 5" and "relayer rq = fleet_relayer"
    and "call_refused rq = engine_limit"
  shows "all_returned (run rq fleet_order (spawn rq))"
  using assms
  by (simp add: fleet_spawn fleet_order_def run_def resume_def resume_worker_def record_outcome_def
      loop_head_def all_returned_def fleet_relayer_def res_ok_def list_all_iff fleet_no_fault)

lemma fleet_snapshot:
  assumes "length (networks rq) = 5" and "relayer rq = fleet_relayer"
    and "call_refused rq = engine_limit"
  shows "onRequest rq fleet_order = Some (respond rq (run rq fleet_order (spawn rq)))"
  using fleet_done [OF assms] by (simp add: onRequest_def)

lemma fleet_shape: "length (networks fleet) = 5" "relayer fleet = fleet_relayer"
  "length (networks fleet_unpriced) = 5" "relayer fleet_unpriced = fleet_relayer"
  "call_refused fleet = engine_limit" "call_refused fleet_unpriced = engine_limit"
  by (simp_all add: fleet_def fleet_unpriced_def)

lemma fleet_returned: "all_returned (run fleet fleet_order (spawn fleet))"
  by (rule fleet_done [OF fleet_shape(1,2,5)])

lemma fleet_run:
  "onRequest fleet fleet_order = Some (respond fleet (run fleet fleet_order (spawn fleet)))"
  by (rule fleet_snapshot [OF fleet_shape(1,2,5)])

lemma fleet_unpriced_run:
  "onRequest fleet_unpriced fleet_order =
     Some (respond fleet_unpriced (run fleet_unpriced fleet_order (spawn fleet_unpriced)))"
  by (rule fleet_snapshot [OF fleet_shape(3,4,6)])

lemma fleet_ids:
  "idsNeeded (resolve_all (networks fleet)) = [''ethereum'', ''polygon-ecosystem-token'', ''xai'']"
  by (simp add: fleet_def resolve_all_def resolve_step_def resolve_id_def set_add_def Let_def
      mainnet_def polygon_def devnet_def xai_def arbitrum_def COINGECKO_ID_BY_SYMBOL_def)

lemma fleet_cids:
  "coinGeckoId_at fleet 0 = Some ''ethereum''"
  "coinGeckoId_at fleet 1 = Some ''polygon-ecosystem-token''"
  "coinGeckoId_at fleet 2 = None"
  "coinGeckoId_at fleet 3 = Some ''xai''"
  "coinGeckoId_at fleet 4 = Some ''ethereum''"
  by (simp_all add: coinGeckoId_at_def fleet_def resolve_all_def resolve_step_def resolve_id_def
      set_add_def Let_def mainnet_def polygon_def devnet_def xai_def arbitrum_def
      COINGECKO_ID_BY_SYMBOL_def)

lemma fleet_priced: "priced fleet = \<lparr> pricesUsd = [(''ethereum'', 2000)], pricingError = None \<rparr>"
  unfolding priced_def fleet_ids
  by (simp add: price_stage_def fetchUsdPrices_def fleet_def res_ok_def
      entries_def spread_def keep_quote_def get_prop_def)

lemma fleet_prices:
  "usdPrice_at fleet 0 = Some 2000" "usdPrice_at fleet 3 = None" "usdPrice_at fleet 4 = Some 2000"
  by (simp_all add: usdPrice_at_def fleet_priced fleet_cids usdPrice_of_def)

lemma fleet_enriched:
  "enrichedSenders (Some 2000) mainnet_status =
     [JObj [(''index'', JNum 0), (''etherBalance'', JNum 0.01), (''usdValue'', JNum 20)],
      JObj [(''index'', JNum 1), (''usdValue'', JNum 0)]]"
  "enrichedSenders None xai_status =
     [JObj [(''index'', JNum 0), (''etherBalance'', JNum 1.5), (''usdValue'', JNull)],
      JObj [(''index'', JNum 1), (''etherBalance'', JNum 0.25), (''usdValue'', JNull)]]"
  "enrichedSenders (Some 2000) arbitrum_status = []"
  by (simp_all add: enrichedSenders_def senders_of_def enrich_sender_def balance_of_def get_prop_def
      spread_def mainnet_status_def xai_status_def arbitrum_status_def)

lemma fleet_bodies:
  "relayer fleet 0 = Resolved \<lparr> res_status = 200, res_json = Inr mainnet_status \<rparr>"
  "relayer fleet 1 = Resolved \<lparr> res_status = 503,
      res_json = Inl (Thrown (Some ''Unexpected token'') ''SyntaxError: Unexpected token'') \<rparr>"
  "relayer fleet 2 = Rejected (Thrown (Some ''fetch failed'') ''TypeError: fetch failed'')"
  "relayer fleet 3 = Resolved \<lparr> res_status = 200, res_json = Inr xai_status \<rparr>"
  "relayer fleet 4 = Resolved \<lparr> res_status = 200, res_json = Inr arbitrum_status \<rparr>"
  by (simp_all add: fleet_def fleet_relayer_def)

lemma fleet_ok: "ok (probe_outcome fleet 0)" "ok (probe_outcome fleet 3)" "ok (probe_outcome fleet 4)"
  by (simp_all add: ok_probe_outcome fleet_bodies res_ok_def fleet_shape(5) fleet_no_fault)

lemma fleet_token_price:
  "usdPrice (nativeToken (probe_outcome fleet 0)) = Some 2000"
  "usdPrice (nativeToken (probe_outcome fleet 3)) = None"
  "usdPrice (nativeToken (probe_outcome fleet 4)) = Some 2000"
  by (simp_all add: probe_outcome_def fleet_bodies res_ok_def success_fields fleet_prices
      fleet_shape(5) fleet_no_fault)

lemma show_nat_503: "show_nat 503 = ''503''"
  by code_simp

lemma show_nat_429: "show_nat 429 = ''429''"
  by code_simp

lemma fleet_unpriced_fails:
  "fetchUsdPrices (idsNeeded (resolve_all (networks fleet_unpriced))) (apiKey fleet_unpriced)
     (price_feed fleet_unpriced) = Inl (new_Error ''CoinGecko HTTP 429'')"
proof -
  have n: "networks fleet_unpriced = networks fleet"
    and f: "price_feed fleet_unpriced = Resolved \<lparr> res_status = 429, res_json = Inr JNull \<rparr>"
    by (simp_all add: fleet_unpriced_def)
  have "idsNeeded (resolve_all (networks fleet_unpriced)) \<noteq> []"
    unfolding n fleet_ids by simp
  moreover have "\<not> res_ok \<lparr> res_status = 429, res_json = Inr JNull \<rparr>"
    by (simp add: res_ok_def)
  ultimately show ?thesis
    unfolding f by (simp add: fetchUsdPrices_http show_nat_429)
qed

lemma crowd_shape: "length (networks crowd) = 13" "relayer crowd idx = Rejected (Thrown None ''offline'')"
  by (simp_all add: crowd_def)

lemma crowd_spawn:
  "spawn crowd =
     \<lparr> cursor = 12, results = [], fetched = [0, 1, 2, 3, 4, 5, 6, 7, 8, 9, 10, 11],
       workers = [AwaitFetch 0, AwaitFetch 1, AwaitFetch 2, AwaitFetch 3, AwaitFetch 4,
                  AwaitFetch 5, AwaitFetch 6, AwaitFetch 7, AwaitFetch 8, AwaitFetch 9,
                  AwaitFetch 10, AwaitFetch 11] \<rparr>"
  by (simp add: spawn_eq concurrency_def crowd_shape upt_conv_Cons)

lemma crowd_resume:
  "workers (resume crowd 0 (spawn crowd)) ! 0 = AwaitFetch 12"
  by (simp add: crowd_spawn resume_def resume_worker_def record_outcome_def loop_head_def crowd_shape)

lemma fleet_first_store: "length (results (resume fleet 2 (spawn fleet))) = 3"
  by (simp add: fleet_spawn [OF fleet_shape(1)] resume_def resume_worker_def record_outcome_def
      loop_head_def store_def fleet_shape fleet_relayer_def)

subsection \<open>Enrichments that throw\<close>

lemma hostile_fault: "enrichment_fault engine_limit price hostile_status = Some TypeError"
proof -
  have s: "senders_of hostile_status =
      [JObj [(''etherBalance'', JObj [(''valueOf'', JNum 1), (''toString'', JNum 1)])]]"
    by (simp add: senders_of_def hostile_status_def get_prop_def)
  have z: "zero_test_throws
      (JObj [(''etherBalance'', JObj [(''valueOf'', JNum 1), (''toString'', JNum 1)])])"
    by (simp add: zero_test_throws_def get_prop_def)
  show ?thesis
    using z
    by (simp add: enrichment_fault_def enrichedSenders_def list_ex_iff zero_test_enrich s
        engine_limit_def)
qed

lemma long_list_fault:
  "enrichment_fault engine_limit price (JObj [(''senders'', JArr (replicate 100001 JNull))]) =
     Some RangeError"
  by (simp add: enrichment_fault_def enrichedSenders_def senders_of_def get_prop_def engine_limit_def)

lemma hostile_outcome:
  "\<not> ok (probe_outcome fleet_hostile 0)"
  "status (probe_outcome fleet_hostile 0) = 0"
  "error (probe_outcome fleet_hostile 0) = Some ''Cannot convert object to primitive value''"
  "data (probe_outcome fleet_hostile 0) = None"
proof -
  have r: "relayer fleet_hostile 0 = Resolved \<lparr> res_status = 200, res_json = Inr hostile_status \<rparr>"
    and c: "call_refused fleet_hostile = engine_limit"
    by (simp_all add: fleet_hostile_def fleet_def)
  have f: "enrichment_fault (call_refused fleet_hostile) (usdPrice_at fleet_hostile 0)
             hostile_status = Some TypeError"
    unfolding c by (rule hostile_fault)
  have o: "probe_outcome fleet_hostile 0 =
      caught (networks fleet_hostile ! 0) (coinGeckoId_at fleet_hostile 0)
        (usdPrice_at fleet_hostile 0) TypeError"
    by (rule probe_outcome_fault [OF r _ _ f]) (simp_all add: res_ok_def)
  show "\<not> ok (probe_outcome fleet_hostile 0)"
    "status (probe_outcome fleet_hostile 0) = 0"
    "error (probe_outcome fleet_hostile 0) = Some ''Cannot convert object to primitive value''"
    "data (probe_outcome fleet_hostile 0) = None"
    unfolding o by (simp_all add: caught_def error_text_def TypeError_def)
qed

section \<open>The snapshot has one outcome per network, in registry order\<close>

text \<open>
  Claim C1. Whatever the order in which the event loop resumes the workers, a
  snapshot that \<^verbatim>\<open>onRequest\<close> produces has exactly one outcome per network of the
  registry, the outcome at index \<open>i\<close> is the one of the network at index \<open>i\<close>, and
  \<^verbatim>\<open>count\<close> is the length of the outcome list.
\<close>

theorem snapshot_one_outcome_per_network:
  assumes "onRequest rq sched = Some snap"
  shows "length (snapshot_results snap) = length (networks rq) \<and>
         (\<forall>i<length (networks rq).
            \<exists>out. snapshot_results snap ! i = Some out \<and> network out = networks rq ! i) \<and>
         count snap = length (snapshot_results snap)"
proof -
  let ?st = "run rq sched (spawn rq)"
  have fin: "all_returned ?st" and snap: "snap = respond rq ?st"
    using assms by (auto simp: onRequest_def Let_def split: if_splits)
  have res: "snapshot_results snap = map (\<lambda>idx. Some (probe_outcome rq idx)) [0..<length (networks rq)]"
    using final_reachable [OF fin] snap by (simp add: respond_def)
  show ?thesis
    using res snap by (simp add: respond_def probe_outcome_network)
qed

theorem snapshot_one_outcome_per_network_witness:
  "onRequest fleet fleet_order = Some (respond fleet (run fleet fleet_order (spawn fleet))) \<and>
   length (snapshot_results (respond fleet (run fleet fleet_order (spawn fleet)))) = 5 \<and>
   (\<exists>out. snapshot_results (respond fleet (run fleet fleet_order (spawn fleet))) ! 0 = Some out \<and>
          network out = mainnet) \<and>
   (\<exists>out. snapshot_results (respond fleet (run fleet fleet_order (spawn fleet))) ! 2 = Some out \<and>
          network out = devnet) \<and>
   (\<exists>out. snapshot_results (respond fleet (run fleet fleet_order (spawn fleet))) ! 4 = Some out \<and>
          network out = arbitrum) \<and>
   count (respond fleet (run fleet fleet_order (spawn fleet))) = 5"
proof -
  let ?R = "respond fleet (run fleet fleet_order (spawn fleet))"
  have S: "onRequest fleet fleet_order = Some ?R"
    by (rule fleet_run)
  have nets: "networks fleet = [mainnet, polygon, devnet, xai, arbitrum]"
    by (simp add: fleet_def)
  note c = snapshot_one_outcome_per_network [OF S]
  have len: "length (snapshot_results ?R) = 5" and cnt: "count ?R = 5"
    using c nets by simp_all
  have at: "\<exists>out. snapshot_results ?R ! i = Some out \<and> network out = networks fleet ! i"
    if "i < 5" for i
    using c that nets by simp
  show ?thesis
    using S len cnt at [of 0] at [of 2] at [of 4] nets by simp
qed

section \<open>The workers and the cursor\<close>

text \<open>
  The number of workers spawned is the pool size, not the smaller of pool size and
  network count: with five networks there are twelve workers.
\<close>

theorem spawned_workers_counterexample:
  "length (workers (spawn fleet)) \<noteq> min concurrency (length (networks fleet))"
  by (simp add: spawn_def length_workers_calls fleet_shape concurrency_def)

text \<open>
  Claim C2, as the code has it. Exactly \<open>concurrency\<close> workers are spawned, whatever the
  number of networks; as many of them as the smaller of the two numbers hold a
  network once spawned, and the others have returned at once. At any point of any
  run there are still \<open>concurrency\<close> workers, the cursor is within the list, and the
  indices fetched so far are exactly those below the cursor, each once and in order.
  A worker that takes a new index takes the value of the cursor, advances the cursor
  by one and fetches that index; a worker returns only when the cursor is at the end
  of the list. So when all workers have returned, every index has been fetched
  exactly once; and every run can be continued until they have.
\<close>

theorem fan_out_claims_each_index_once:
  "length (workers (spawn rq)) = concurrency \<and>
   length (filter (\<lambda>w. w \<noteq> Returned) (workers (spawn rq))) =
     min concurrency (length (networks rq)) \<and>
   (\<forall>sched.
      length (workers (run rq sched (spawn rq))) = concurrency \<and>
      cursor (run rq sched (spawn rq)) \<le> length (networks rq) \<and>
      fetched (run rq sched (spawn rq)) = [0..<cursor (run rq sched (spawn rq))] \<and>
      (\<forall>k<concurrency.
         workers (run rq sched (spawn rq)) ! k = Returned \<longrightarrow>
         cursor (run rq sched (spawn rq)) = length (networks rq)) \<and>
      (\<forall>k<concurrency. \<forall>idx.
         in_flight (workers (resume rq k (run rq sched (spawn rq))) ! k) = Some idx \<and>
         in_flight (workers (run rq sched (spawn rq)) ! k) \<noteq> Some idx \<longrightarrow>
         idx = cursor (run rq sched (spawn rq)) \<and>
         cursor (resume rq k (run rq sched (spawn rq))) = cursor (run rq sched (spawn rq)) + 1 \<and>
         fetched (resume rq k (run rq sched (spawn rq))) =
           fetched (run rq sched (spawn rq)) @ [idx]) \<and>
      (all_returned (run rq sched (spawn rq)) \<longrightarrow>
         fetched (run rq sched (spawn rq)) = [0..<length (networks rq)])) \<and>
   all_returned (run rq (completing rq) (spawn rq))"
proof (intro conjI allI impI)
  show "length (workers (spawn rq)) = concurrency"
    by (simp add: spawn_def length_workers_calls)
  show "length (filter (\<lambda>w. w \<noteq> Returned) (workers (spawn rq))) =
          min concurrency (length (networks rq))"
    by (rule spawn_pending)
  show "all_returned (run rq (completing rq) (spawn rq))"
    unfolding completing_def by (rule drain_completes) simp
next
  fix sched
  let ?st = "run rq sched (spawn rq)"
  have inv: "pool_inv rq ?st" by (rule inv_reachable)
  show len: "length (workers ?st) = concurrency"
    by (rule length_workers_reachable)
  show "cursor ?st \<le> length (networks rq)"
    using inv by (simp add: pool_inv_def)
  show "fetched ?st = [0..<cursor ?st]"
    using inv by (simp add: pool_inv_def)
  { fix k assume k: "k < concurrency" and r: "workers ?st ! k = Returned"
    have "worker_ok rq ?st (workers ?st ! k)"
      using inv_worker_ok [OF inv] k len by simp
    then show "cursor ?st = length (networks rq)"
      using r by (simp add: worker_ok_def) }
  { fix k idx
    assume k: "k < concurrency"
      and a: "in_flight (workers (resume rq k ?st) ! k) = Some idx \<and>
              in_flight (workers ?st ! k) \<noteq> Some idx"
    have kl: "k < length (workers ?st)" using k len by simp
    note c = resume_claims [OF a [THEN conjunct1] a [THEN conjunct2] kl]
    from c show "idx = cursor ?st" by simp
    from c show "cursor (resume rq k ?st) = cursor ?st + 1" by simp
    from c show "fetched (resume rq k ?st) = fetched ?st @ [idx]" by simp }
  { assume "all_returned ?st"
    then show "fetched ?st = [0..<length (networks rq)]"
      by (rule final_cursor(2)) }
qed

theorem fan_out_claims_each_index_once_witness:
  "length (workers (spawn fleet)) = 12 \<and>
   length (filter (\<lambda>w. w \<noteq> Returned) (workers (spawn fleet))) = 5 \<and>
   workers (spawn crowd) ! 0 = AwaitFetch 0 \<and>
   workers (resume crowd 0 (spawn crowd)) ! 0 = AwaitFetch 12 \<and>
   cursor (spawn crowd) = 12 \<and>
   cursor (resume crowd 0 (spawn crowd)) = 13 \<and>
   fetched (resume crowd 0 (spawn crowd)) = [0, 1, 2, 3, 4, 5, 6, 7, 8, 9, 10, 11, 12] \<and>
   all_returned (run fleet fleet_order (spawn fleet)) \<and>
   fetched (run fleet fleet_order (spawn fleet)) = [0, 1, 2, 3, 4]"
proof -
  note t = fan_out_claims_each_index_once [of fleet]
  note c = fan_out_claims_each_index_once [of crowd]
  have w1: "length (workers (spawn fleet)) = 12"
    using t [THEN conjunct1] by (simp add: concurrency_def)
  have w2: "length (filter (\<lambda>w. w \<noteq> Returned) (workers (spawn fleet))) = 5"
    using t [THEN conjunct2, THEN conjunct1] by (simp add: concurrency_def fleet_shape)
  have w3: "workers (spawn crowd) ! 0 = AwaitFetch 0" and w5: "cursor (spawn crowd) = 12"
    by (simp_all add: crowd_spawn)
  have e: "run crowd [] (spawn crowd) = spawn crowd"
    by (simp add: run_def)
  have k: "0 < concurrency" by (simp add: concurrency_def)
  have h: "in_flight (workers (resume crowd 0 (run crowd [] (spawn crowd))) ! 0) = Some 12 \<and>
           in_flight (workers (run crowd [] (spawn crowd)) ! 0) \<noteq> Some 12"
    unfolding e by (simp add: crowd_resume w3 in_flight_def)
  note step = c [THEN conjunct2, THEN conjunct2, THEN conjunct1, THEN spec [where x = "[]"],
      THEN conjunct2, THEN conjunct2, THEN conjunct2, THEN conjunct2, THEN conjunct1,
      rule_format, OF k h]
  have w6: "cursor (resume crowd 0 (spawn crowd)) = 13"
    using step w5 unfolding e by simp
  have w7: "fetched (resume crowd 0 (spawn crowd)) = [0, 1, 2, 3, 4, 5, 6, 7, 8, 9, 10, 11, 12]"
    using step unfolding e by (simp add: crowd_spawn)
  have w8: "all_returned (run fleet fleet_order (spawn fleet))"
    by (rule fleet_returned)
  have w9: "fetched (run fleet fleet_order (spawn fleet)) = [0, 1, 2, 3, 4]"
    using t [THEN conjunct2, THEN conjunct2, THEN conjunct1, THEN spec [where x = fleet_order],
        THEN conjunct2, THEN conjunct2, THEN conjunct2, THEN conjunct2, THEN conjunct2] w8
    by (simp add: fleet_shape upt_conv_Cons)
  show ?thesis
    using w1 w2 w3 crowd_resume w5 w6 w7 w8 w9 by (intro conjI)
qed

section \<open>A failed price lookup is not fatal\<close>

text \<open>
  Claim C3. The price lookup fails with one error whenever the feed is asked and
  answers with a status outside 200 to 299. When the lookup fails, whatever the
  fault, the price table is empty and a snapshot is still produced; in every
  snapshot the pricing metadata carries the text of the fault as its error and no
  priced identifier, every network has been fetched once and has its outcome, the
  USD price of every outcome is \<^verbatim>\<open>null\<close>, an outcome is successful exactly when its own
  probe got a readable body with a status in 200 to 299 and the enrichment of that
  body has not thrown, which does not depend on prices: every network that succeeds
  under another price feed succeeds here. A successful outcome has \<^verbatim>\<open>null\<close> for the
  USD total, the USD minimum and the \<^verbatim>\<open>usdValue\<close> of every sender.
\<close>

theorem price_failure_is_not_fatal:
  assumes fail:
    "fetchUsdPrices (idsNeeded (resolve_all (networks rq))) (apiKey rq) (price_feed rq) = Inl e"
  shows "(\<forall>ids key res. ids \<noteq> [] \<and> \<not> res_ok res \<longrightarrow>
            fetchUsdPrices ids key (Resolved res) =
              Inl (new_Error (''CoinGecko HTTP '' @ show_nat (res_status res)))) \<and>
         pricesUsd (priced rq) = [] \<and>
         (\<exists>sched snap. onRequest rq sched = Some snap) \<and>
         (\<forall>sched snap. onRequest rq sched = Some snap \<longrightarrow>
            pricing_error (pricing snap) = Some (error_text e) \<and>
            idsPriced (pricing snap) = [] \<and>
            fetched (run rq sched (spawn rq)) = [0..<length (networks rq)] \<and>
            length (snapshot_results snap) = length (networks rq) \<and>
            (\<forall>idx<length (networks rq).
               \<exists>out. snapshot_results snap ! idx = Some out \<and>
                 usdPrice (nativeToken out) = None \<and>
                 (ok out \<longleftrightarrow>
                    (\<exists>res j. relayer rq idx = Resolved res \<and> res_ok res \<and> res_json res = Inr j \<and>
                             enrichment_fault (call_refused rq) None j = None)) \<and>
                 (ok out \<longrightarrow>
                    (\<exists>s d en. summary out = Some s \<and> totalUsd s = None \<and> minUsd s = None \<and>
                              data out = Some d \<and> get_prop d ''senders'' = Some (JArr en) \<and>
                              (\<forall>t\<in>set en. get_prop t ''usdValue'' = Some JNull))) \<and>
                 (\<forall>feed sched' snap' out'.
                    onRequest (rq\<lparr> price_feed := feed \<rparr>) sched' = Some snap' \<and>
                    snapshot_results snap' ! idx = Some out' \<and> ok out' \<longrightarrow> ok out)))"
proof (intro conjI)
  show "\<forall>ids key res. ids \<noteq> [] \<and> \<not> res_ok res \<longrightarrow>
          fetchUsdPrices ids key (Resolved res) =
            Inl (new_Error (''CoinGecko HTTP '' @ show_nat (res_status res)))"
    by (simp add: fetchUsdPrices_http)
  note pf = priced_failed [OF fail]
  show "pricesUsd (priced rq) = []" by (simp add: pf)
  show "\<exists>sched snap. onRequest rq sched = Some snap"
    using onRequest_completing [of rq] by blast
  show "\<forall>sched snap. onRequest rq sched = Some snap \<longrightarrow>
            pricing_error (pricing snap) = Some (error_text e) \<and>
            idsPriced (pricing snap) = [] \<and>
            fetched (run rq sched (spawn rq)) = [0..<length (networks rq)] \<and>
            length (snapshot_results snap) = length (networks rq) \<and>
            (\<forall>idx<length (networks rq).
               \<exists>out. snapshot_results snap ! idx = Some out \<and>
                 usdPrice (nativeToken out) = None \<and>
                 (ok out \<longleftrightarrow>
                    (\<exists>res j. relayer rq idx = Resolved res \<and> res_ok res \<and> res_json res = Inr j \<and>
                             enrichment_fault (call_refused rq) None j = None)) \<and>
                 (ok out \<longrightarrow>
                    (\<exists>s d en. summary out = Some s \<and> totalUsd s = None \<and> minUsd s = None \<and>
                              data out = Some d \<and> get_prop d ''senders'' = Some (JArr en) \<and>
                              (\<forall>t\<in>set en. get_prop t ''usdValue'' = Some JNull))) \<and>
                 (\<forall>feed sched' snap' out'.
                    onRequest (rq\<lparr> price_feed := feed \<rparr>) sched' = Some snap' \<and>
                    snapshot_results snap' ! idx = Some out' \<and> ok out' \<longrightarrow> ok out))"
  proof (intro allI impI conjI)
    fix sched snap assume snap: "onRequest rq sched = Some snap"
    let ?st = "run rq sched (spawn rq)"
    have fin: "all_returned ?st" and sn: "snap = respond rq ?st"
      using snap by (auto simp: onRequest_def Let_def split: if_splits)
    show "pricing_error (pricing snap) = Some (error_text e)"
      by (simp add: sn respond_def pf)
    show "idsPriced (pricing snap) = []"
      by (simp add: sn respond_def pf)
    show "fetched ?st = [0..<length (networks rq)]"
      by (rule final_cursor(2) [OF fin])
    show "length (snapshot_results snap) = length (networks rq)"
      using final_reachable [OF fin] by (simp add: sn respond_def)
    fix idx assume idx: "idx < length (networks rq)"
    let ?out = "probe_outcome rq idx"
    have o: "snapshot_results snap ! idx = Some ?out"
      by (rule snapshot_outcome [OF snap idx])
    have price: "usdPrice_at rq idx = None"
      by (simp add: usdPrice_at_def pf usdPrice_of_empty)
    have p: "usdPrice (nativeToken ?out) = None"
      by (simp add: probe_outcome_token native_token_of_def price)
    have iff: "ok ?out \<longleftrightarrow>
        (\<exists>res j. relayer rq idx = Resolved res \<and> res_ok res \<and> res_json res = Inr j \<and>
                 enrichment_fault (call_refused rq) None j = None)"
      using ok_probe_outcome [of rq idx] by (simp add: price)
    have usd: "ok ?out \<longrightarrow>
        (\<exists>s d en. summary ?out = Some s \<and> totalUsd s = None \<and> minUsd s = None \<and>
                  data ?out = Some d \<and> get_prop d ''senders'' = Some (JArr en) \<and>
                  (\<forall>t\<in>set en. get_prop t ''usdValue'' = Some JNull))"
    proof
      assume "ok ?out"
      then obtain res j where
        s: "?out = success (networks rq ! idx) (coinGeckoId_at rq idx) (usdPrice_at rq idx) res j"
        by (auto elim: ok_probe_outcomeD)
      let ?en = "enrichedSenders None j"
      have "summary ?out = Some (summarise None ?en)" "data ?out = Some (enriched_data j ?en)"
        unfolding s by (simp_all add: success_fields price)
      then show "\<exists>s d en. summary ?out = Some s \<and> totalUsd s = None \<and> minUsd s = None \<and>
                  data ?out = Some d \<and> get_prop d ''senders'' = Some (JArr en) \<and>
                  (\<forall>t\<in>set en. get_prop t ''usdValue'' = Some JNull)"
        using summarise_unpriced [of ?en] enriched_data_senders [of j ?en] unpriced_senders [of j]
        by blast
    qed
    have other: "\<forall>feed sched' snap' out'.
        onRequest (rq\<lparr> price_feed := feed \<rparr>) sched' = Some snap' \<and>
        snapshot_results snap' ! idx = Some out' \<and> ok out' \<longrightarrow> ok ?out"
    proof (intro allI impI)
      fix feed sched' snap' out'
      assume a: "onRequest (rq\<lparr> price_feed := feed \<rparr>) sched' = Some snap' \<and>
                 snapshot_results snap' ! idx = Some out' \<and> ok out'"
      then have "out' = probe_outcome (rq\<lparr> price_feed := feed \<rparr>) idx"
        using snapshot_outcome [of "rq\<lparr> price_feed := feed \<rparr>" sched' snap' idx] idx by simp
      then show "ok ?out" using a by (simp add: ok_price_feed)
    qed
    show "\<exists>out. snapshot_results snap ! idx = Some out \<and>
                 usdPrice (nativeToken out) = None \<and>
                 (ok out \<longleftrightarrow>
                    (\<exists>res j. relayer rq idx = Resolved res \<and> res_ok res \<and> res_json res = Inr j \<and>
                             enrichment_fault (call_refused rq) None j = None)) \<and>
                 (ok out \<longrightarrow>
                    (\<exists>s d en. summary out = Some s \<and> totalUsd s = None \<and> minUsd s = None \<and>
                              data out = Some d \<and> get_prop d ''senders'' = Some (JArr en) \<and>
                              (\<forall>t\<in>set en. get_prop t ''usdValue'' = Some JNull))) \<and>
                 (\<forall>feed sched' snap' out'.
                    onRequest (rq\<lparr> price_feed := feed \<rparr>) sched' = Some snap' \<and>
                    snapshot_results snap' ! idx = Some out' \<and> ok out' \<longrightarrow> ok out)"
      apply (rule exI [of _ ?out])
      using o p iff usd other by (intro conjI)
  qed
qed

theorem price_failure_is_not_fatal_witness:
  "fetchUsdPrices (idsNeeded (resolve_all (networks fleet_unpriced))) (apiKey fleet_unpriced)
     (price_feed fleet_unpriced) = Inl (new_Error ''CoinGecko HTTP 429'') \<and>
   onRequest fleet_unpriced fleet_order =
     Some (respond fleet_unpriced (run fleet_unpriced fleet_order (spawn fleet_unpriced))) \<and>
   pricing_error (pricing (respond fleet_unpriced (run fleet_unpriced fleet_order (spawn fleet_unpriced)))) =
     Some ''CoinGecko HTTP 429'' \<and>
   idsPriced (pricing (respond fleet_unpriced (run fleet_unpriced fleet_order (spawn fleet_unpriced)))) = [] \<and>
   fetched (run fleet_unpriced fleet_order (spawn fleet_unpriced)) = [0, 1, 2, 3, 4] \<and>
   length (snapshot_results (respond fleet_unpriced (run fleet_unpriced fleet_order (spawn fleet_unpriced)))) = 5 \<and>
   (\<exists>out s. snapshot_results (respond fleet_unpriced (run fleet_unpriced fleet_order (spawn fleet_unpriced))) ! 0 =
              Some out \<and>
            ok out \<and> usdPrice (nativeToken out) = None \<and>
            summary out = Some s \<and> totalUsd s = None \<and> minUsd s = None) \<and>
   (\<exists>out. snapshot_results (respond fleet_unpriced (run fleet_unpriced fleet_order (spawn fleet_unpriced))) ! 2 =
            Some out \<and>
          \<not> ok out \<and> usdPrice (nativeToken out) = None)"
proof -
  let ?U = "respond fleet_unpriced (run fleet_unpriced fleet_order (spawn fleet_unpriced))"
  have S: "onRequest fleet_unpriced fleet_order = Some ?U"
    by (rule fleet_unpriced_run)
  note t = price_failure_is_not_fatal [OF fleet_unpriced_fails,
      THEN conjunct2, THEN conjunct2, THEN conjunct2, rule_format, OF S]
  have e: "error_text (new_Error ''CoinGecko HTTP 429'') = ''CoinGecko HTTP 429''"
    by (simp add: error_text_def new_Error_def)
  have pe: "pricing_error (pricing ?U) = Some ''CoinGecko HTTP 429''"
    using t [THEN conjunct1] e by simp
  have ip: "idsPriced (pricing ?U) = []"
    using t [THEN conjunct2, THEN conjunct1] by simp
  have fe: "fetched (run fleet_unpriced fleet_order (spawn fleet_unpriced)) = [0, 1, 2, 3, 4]"
    using t [THEN conjunct2, THEN conjunct2, THEN conjunct1]
    by (simp add: fleet_shape upt_conv_Cons)
  have len: "length (snapshot_results ?U) = 5"
    using t [THEN conjunct2, THEN conjunct2, THEN conjunct2, THEN conjunct1]
    by (simp add: fleet_shape)
  note each = t [THEN conjunct2, THEN conjunct2, THEN conjunct2, THEN conjunct2, rule_format]
  have i0: "0 < length (networks fleet_unpriced)" and i2: "2 < length (networks fleet_unpriced)"
    by (simp_all add: fleet_shape)
  have r0: "\<exists>res j. relayer fleet_unpriced 0 = Resolved res \<and> res_ok res \<and> res_json res = Inr j \<and>
                   enrichment_fault (call_refused fleet_unpriced) None j = None"
    by (simp add: fleet_shape fleet_relayer_def res_ok_def fleet_no_fault)
  have r2: "\<not> (\<exists>res j. relayer fleet_unpriced 2 = Resolved res \<and> res_ok res \<and> res_json res = Inr j \<and>
                      enrichment_fault (call_refused fleet_unpriced) None j = None)"
    by (simp add: fleet_shape fleet_relayer_def)
  obtain out where o:
    "snapshot_results ?U ! 0 = Some out" "usdPrice (nativeToken out) = None"
    "ok out \<longleftrightarrow>
       (\<exists>res j. relayer fleet_unpriced 0 = Resolved res \<and> res_ok res \<and> res_json res = Inr j \<and>
                enrichment_fault (call_refused fleet_unpriced) None j = None)"
    "ok out \<longrightarrow>
       (\<exists>s d en. summary out = Some s \<and> totalUsd s = None \<and> minUsd s = None \<and>
                 data out = Some d \<and> get_prop d ''senders'' = Some (JArr en) \<and>
                 (\<forall>t\<in>set en. get_prop t ''usdValue'' = Some JNull))"
    "\<forall>feed sched' snap' out'.
       onRequest (fleet_unpriced\<lparr> price_feed := feed \<rparr>) sched' = Some snap' \<and>
       snapshot_results snap' ! 0 = Some out' \<and> ok out' \<longrightarrow> ok out"
    using each [OF i0] by (elim exE conjE) (rule that)
  have ok0: "ok out" using o(3) r0 by simp
  then obtain s where sm: "summary out = Some s" "totalUsd s = None" "minUsd s = None"
    using o(4) by blast
  have w0: "\<exists>out s. snapshot_results ?U ! 0 = Some out \<and>
            ok out \<and> usdPrice (nativeToken out) = None \<and>
            summary out = Some s \<and> totalUsd s = None \<and> minUsd s = None"
    using o(1,2) ok0 sm by blast
  obtain out' where o':
    "snapshot_results ?U ! 2 = Some out'" "usdPrice (nativeToken out') = None"
    "ok out' \<longleftrightarrow>
       (\<exists>res j. relayer fleet_unpriced 2 = Resolved res \<and> res_ok res \<and> res_json res = Inr j \<and>
                enrichment_fault (call_refused fleet_unpriced) None j = None)"
    "ok out' \<longrightarrow>
       (\<exists>s d en. summary out' = Some s \<and> totalUsd s = None \<and> minUsd s = None \<and>
                 data out' = Some d \<and> get_prop d ''senders'' = Some (JArr en) \<and>
                 (\<forall>t\<in>set en. get_prop t ''usdValue'' = Some JNull))"
    "\<forall>feed sched' snap' out''.
       onRequest (fleet_unpriced\<lparr> price_feed := feed \<rparr>) sched' = Some snap' \<and>
       snapshot_results snap' ! 2 = Some out'' \<and> ok out'' \<longrightarrow> ok out'"
    using each [OF i2] by (elim exE conjE) (rule that)
  have "\<not> ok out'" using o'(3) r2 by simp
  then have w2: "\<exists>out. snapshot_results ?U ! 2 = Some out \<and> \<not> ok out \<and> usdPrice (nativeToken out) = None"
    using o'(1,2) by blast
  show ?thesis
    using fleet_unpriced_fails S pe ip fe len w0 w2 by (intro conjI)
qed

section \<open>A failed probe stays local\<close>

text \<open>
  Claim C4. In a snapshot, a probe answered with a status outside 200 to 299 yields a
  failure outcome with that status, the error text \<^verbatim>\<open>HTTP\<close> followed by the status
  code, and neither \<^verbatim>\<open>data\<close> nor \<^verbatim>\<open>summary\<close>; the body plays no part (the outcome
  is the same whatever the body, and a worker waits for a body only of a response
  with a status in 200 to 299). A probe whose \<^verbatim>\<open>fetch\<close> is rejected yields a failure
  outcome with status 0 and the text \<^verbatim>\<open>e?.message ?? String(e)\<close> of the fault, which
  is its message when it has one. Whatever happens to the probe of one network, the
  outcomes of the other networks are the same.
\<close>

theorem probe_failure_recorded_locally:
  assumes snap: "onRequest rq sched = Some snap"
    and idx: "idx < length (networks rq)"
  shows "(\<forall>res. relayer rq idx = Resolved res \<and> \<not> res_ok res \<longrightarrow>
            (\<exists>out. snapshot_results snap ! idx = Some out \<and> \<not> ok out \<and>
                   status out = res_status res \<and>
                   error out = Some (''HTTP '' @ show_nat (res_status res)) \<and>
                   data out = None \<and> summary out = None) \<and>
            (\<forall>body sched' snap'.
               onRequest (rq\<lparr> relayer := (relayer rq)(idx := Resolved (res\<lparr> res_json := body \<rparr>)) \<rparr>)
                 sched' = Some snap' \<longrightarrow>
               snapshot_results snap' ! idx = snapshot_results snap ! idx)) \<and>
         (\<forall>e. relayer rq idx = Rejected e \<longrightarrow>
            (\<exists>out. snapshot_results snap ! idx = Some out \<and> \<not> ok out \<and> status out = 0 \<and>
                   error out = Some (error_text e) \<and>
                   (\<forall>m. message e = Some m \<longrightarrow> error out = Some m) \<and>
                   data out = None \<and> summary out = None)) \<and>
         (\<forall>sched' k i r.
            k < length (workers (run rq sched' (spawn rq))) \<and>
            workers (run rq sched' (spawn rq)) ! k = AwaitJson i r \<longrightarrow>
            relayer rq i = Resolved r \<and> res_ok r) \<and>
         (\<forall>f sched' snap' j.
            onRequest (rq\<lparr> relayer := (relayer rq)(idx := f) \<rparr>) sched' = Some snap' \<and>
            j < length (networks rq) \<and> j \<noteq> idx \<longrightarrow>
            snapshot_results snap' ! j = snapshot_results snap ! j)"
proof (intro conjI allI impI)
  fix res assume r: "relayer rq idx = Resolved res \<and> \<not> res_ok res"
  let ?out = "http_failure (networks rq ! idx) (coinGeckoId_at rq idx) (usdPrice_at rq idx) res"
  have o: "snapshot_results snap ! idx = Some ?out"
    using snapshot_outcome [OF snap idx] r by (simp add: probe_outcome_http)
  show "\<exists>out. snapshot_results snap ! idx = Some out \<and> \<not> ok out \<and>
              status out = res_status res \<and>
              error out = Some (''HTTP '' @ show_nat (res_status res)) \<and>
              data out = None \<and> summary out = None"
    apply (rule exI [of _ ?out])
    using o failure_fields(1-5) [of "networks rq ! idx" "coinGeckoId_at rq idx" "usdPrice_at rq idx" res]
    by (intro conjI)
  fix body sched' snap'
  let ?rq' = "rq\<lparr> relayer := (relayer rq)(idx := Resolved (res\<lparr> res_json := body \<rparr>)) \<rparr>"
  assume s': "onRequest ?rq' sched' = Some snap'"
  have "relayer ?rq' idx = Resolved (res\<lparr> res_json := body \<rparr>)"
    and "\<not> res_ok (res\<lparr> res_json := body \<rparr>)"
    using r by (simp_all add: res_ok_def)
  then have "probe_outcome ?rq' idx =
      http_failure (networks ?rq' ! idx) (coinGeckoId_at ?rq' idx) (usdPrice_at ?rq' idx)
        (res\<lparr> res_json := body \<rparr>)"
    by (rule probe_outcome_http)
  also have "\<dots> = ?out"
    by (simp add: http_failure_ignores_body probe_frame [of ?rq' rq])
  finally have "snapshot_results snap' ! idx = Some ?out"
    using snapshot_outcome [OF s', of idx] idx by simp
  then show "snapshot_results snap' ! idx = snapshot_results snap ! idx"
    using o by simp
next
  fix e assume r: "relayer rq idx = Rejected e"
  let ?out = "caught (networks rq ! idx) (coinGeckoId_at rq idx) (usdPrice_at rq idx) e"
  have o: "snapshot_results snap ! idx = Some ?out"
    using snapshot_outcome [OF snap idx] r by (simp add: probe_outcome_rejected)
  have m: "\<forall>m. message e = Some m \<longrightarrow> error ?out = Some m"
    by (simp add: failure_fields error_text_message)
  show "\<exists>out. snapshot_results snap ! idx = Some out \<and> \<not> ok out \<and> status out = 0 \<and>
              error out = Some (error_text e) \<and>
              (\<forall>m. message e = Some m \<longrightarrow> error out = Some m) \<and>
              data out = None \<and> summary out = None"
    apply (rule exI [of _ ?out])
    using o failure_fields(6-8) [of "networks rq ! idx" "coinGeckoId_at rq idx" "usdPrice_at rq idx" e]
      m failure_fields(9-10) [of "networks rq ! idx" "coinGeckoId_at rq idx" "usdPrice_at rq idx" e]
    by (intro conjI)
next
  fix sched' k i r
  assume a: "k < length (workers (run rq sched' (spawn rq))) \<and>
             workers (run rq sched' (spawn rq)) ! k = AwaitJson i r"
  have "worker_ok rq (run rq sched' (spawn rq)) (workers (run rq sched' (spawn rq)) ! k)"
    using inv_worker_ok [OF inv_reachable, of k rq sched'] a by simp
  then have b: "relayer rq i = Resolved r \<and> res_ok r"
    using a by (simp add: worker_ok_def)
  from b show "relayer rq i = Resolved r" by simp
  from b show "res_ok r" by simp
next
  fix f sched' snap' j
  let ?rq' = "rq\<lparr> relayer := (relayer rq)(idx := f) \<rparr>"
  assume a: "onRequest ?rq' sched' = Some snap' \<and> j < length (networks rq) \<and> j \<noteq> idx"
  have "probe_outcome ?rq' j = probe_outcome rq j"
    using a by (intro probe_outcome_cong) simp_all
  then show "snapshot_results snap' ! j = snapshot_results snap ! j"
    using snapshot_outcome [of ?rq' sched' snap' j] snapshot_outcome [OF snap, of j] a by simp
qed

theorem probe_failure_recorded_locally_witness:
  "onRequest fleet fleet_order = Some (respond fleet (run fleet fleet_order (spawn fleet))) \<and>
   relayer fleet 1 =
     Resolved \<lparr> res_status = 503,
                res_json = Inl (Thrown (Some ''Unexpected token'') ''SyntaxError: Unexpected token'') \<rparr> \<and>
   (\<exists>out. snapshot_results (respond fleet (run fleet fleet_order (spawn fleet))) ! 1 = Some out \<and>
          \<not> ok out \<and> status out = 503 \<and> error out = Some ''HTTP 503'' \<and>
          data out = None \<and> summary out = None) \<and>
   relayer fleet 2 = Rejected (Thrown (Some ''fetch failed'') ''TypeError: fetch failed'') \<and>
   (\<exists>out. snapshot_results (respond fleet (run fleet fleet_order (spawn fleet))) ! 2 = Some out \<and>
          \<not> ok out \<and> status out = 0 \<and> error out = Some ''fetch failed'' \<and>
          data out = None \<and> summary out = None) \<and>
   onRequest fleet_down (completing fleet_down) =
     Some (respond fleet_down (run fleet_down (completing fleet_down) (spawn fleet_down))) \<and>
   snapshot_results (respond fleet_down (run fleet_down (completing fleet_down) (spawn fleet_down))) ! 0 =
     snapshot_results (respond fleet (run fleet fleet_order (spawn fleet))) ! 0"
proof -
  let ?R = "respond fleet (run fleet fleet_order (spawn fleet))"
  let ?D = "respond fleet_down (run fleet_down (completing fleet_down) (spawn fleet_down))"
  let ?r = "\<lparr> res_status = 503,
             res_json = Inl (Thrown (Some ''Unexpected token'') ''SyntaxError: Unexpected token'') \<rparr>"
  let ?e = "Thrown (Some ''fetch failed'') ''TypeError: fetch failed''"
  have S: "onRequest fleet fleet_order = Some ?R"
    by (rule fleet_run)
  have D: "onRequest fleet_down (completing fleet_down) = Some ?D"
    by (rule onRequest_completing)
  have D': "onRequest (fleet\<lparr> relayer := (relayer fleet)(1 := Rejected (Thrown None ''connection refused'')) \<rparr>)
              (completing fleet_down) = Some ?D"
    using D by (simp add: fleet_down_def)
  have i1: "1 < length (networks fleet)" and i2: "2 < length (networks fleet)"
    by (simp_all add: fleet_shape)
  note t1 = probe_failure_recorded_locally [OF S i1]
  note t2 = probe_failure_recorded_locally [OF S i2]
  have nok: "\<not> res_ok ?r" by (simp add: res_ok_def)
  have ne: "networks fleet \<noteq> []" by (simp add: fleet_def)
  have "\<exists>out. snapshot_results ?R ! 1 = Some out \<and> \<not> ok out \<and>
              status out = res_status ?r \<and>
              error out = Some (''HTTP '' @ show_nat (res_status ?r)) \<and>
              data out = None \<and> summary out = None"
    using t1 [THEN conjunct1, rule_format, of ?r] fleet_bodies(2) nok by blast
  then have w1: "\<exists>out. snapshot_results ?R ! 1 = Some out \<and>
          \<not> ok out \<and> status out = 503 \<and> error out = Some ''HTTP 503'' \<and>
          data out = None \<and> summary out = None"
    by (simp add: show_nat_503)
  have "\<exists>out. snapshot_results ?R ! 2 = Some out \<and> \<not> ok out \<and> status out = 0 \<and>
              error out = Some (error_text ?e) \<and>
              (\<forall>m. message ?e = Some m \<longrightarrow> error out = Some m) \<and>
              data out = None \<and> summary out = None"
    using t2 [THEN conjunct2, THEN conjunct1, rule_format, of ?e] fleet_bodies(3) by blast
  then have w2: "\<exists>out. snapshot_results ?R ! 2 = Some out \<and>
          \<not> ok out \<and> status out = 0 \<and> error out = Some ''fetch failed'' \<and>
          data out = None \<and> summary out = None"
    by (simp add: error_text_def)
  have iso: "snapshot_results ?D ! 0 = snapshot_results ?R ! 0"
    using t1 [THEN conjunct2, THEN conjunct2, THEN conjunct2, rule_format,
        of "Rejected (Thrown None ''connection refused'')" "completing fleet_down" ?D 0] D' i1 ne
    by simp
  show ?thesis
    using S fleet_bodies(2) w1 fleet_bodies(3) w2 D iso by (intro conjI)
qed

section \<open>USD fields follow the price\<close>

text \<open>
  Claim C5. In a successful outcome of a snapshot, when the price of the network's
  native currency is unknown the USD total, the USD minimum and the \<^verbatim>\<open>usdValue\<close> of
  every sender are \<^verbatim>\<open>null\<close> (not a number at all); when the price is known the
  \<^verbatim>\<open>usdValue\<close> of each sender is its native balance times the price, where the native
  balance is \<^verbatim>\<open>etherBalance\<close> when that is a number and 0 otherwise.
\<close>

theorem usd_fields_follow_price:
  assumes snap: "onRequest rq sched = Some snap"
    and idx: "idx < length (networks rq)"
    and out: "snapshot_results snap ! idx = Some out"
    and ok: "ok out"
  shows "\<exists>res jsonRaw s d en.
           relayer rq idx = Resolved res \<and> res_json res = Inr jsonRaw \<and>
           summary out = Some s \<and> data out = Some d \<and>
           get_prop d ''senders'' = Some (JArr en) \<and>
           length en = length (senders_of jsonRaw) \<and>
           (usdPrice (nativeToken out) = None \<longrightarrow>
              totalUsd s = None \<and> minUsd s = None \<and>
              (\<forall>k<length en. get_prop (en ! k) ''usdValue'' = Some JNull)) \<and>
           (\<forall>p. usdPrice (nativeToken out) = Some p \<longrightarrow>
              (\<forall>k<length en.
                 get_prop (en ! k) ''usdValue'' = Some (JNum (balance_of (senders_of jsonRaw ! k) * p))))"
proof -
  have o: "out = probe_outcome rq idx"
    using snapshot_outcome [OF snap idx] out by simp
  then have "ok (probe_outcome rq idx)" using ok by simp
  then obtain res j where r: "relayer rq idx = Resolved res" "res_json res = Inr j"
    and s: "out = success (networks rq ! idx) (coinGeckoId_at rq idx) (usdPrice_at rq idx) res j"
    using o by (auto elim: ok_probe_outcomeD)
  let ?price = "usdPrice_at rq idx"
  let ?en = "enrichedSenders ?price j"
  have p: "usdPrice (nativeToken out) = ?price"
    and sm: "summary out = Some (summarise ?price ?en)"
    and d: "data out = Some (enriched_data j ?en)"
    using s by (simp_all add: success_fields)
  have len: "length ?en = length (senders_of j)"
    by (simp add: enrichedSenders_def)
  have none: "?price = None \<longrightarrow>
      totalUsd (summarise ?price ?en) = None \<and> minUsd (summarise ?price ?en) = None \<and>
      (\<forall>k<length ?en. get_prop (?en ! k) ''usdValue'' = Some JNull)"
    by (auto simp: summarise_unpriced enrichedSenders_def enrich_sender_usdValue)
  have some: "\<forall>p. ?price = Some p \<longrightarrow>
      (\<forall>k<length ?en.
         get_prop (?en ! k) ''usdValue'' = Some (JNum (balance_of (senders_of j ! k) * p)))"
    by (auto simp: enrichedSenders_def enrich_sender_usdValue)
  show ?thesis
    unfolding p
    apply (rule exI [of _ res])
    apply (rule exI [of _ j])
    apply (rule exI [of _ "summarise ?price ?en"])
    apply (rule exI [of _ "enriched_data j ?en"])
    apply (rule exI [of _ ?en])
    using r sm d enriched_data_senders [of j ?en] len none some
    by (intro conjI)
qed

theorem usd_fields_follow_price_witness:
  "onRequest fleet fleet_order = Some (respond fleet (run fleet fleet_order (spawn fleet))) \<and>
   snapshot_results (respond fleet (run fleet fleet_order (spawn fleet))) ! 0 =
     Some (probe_outcome fleet 0) \<and>
   ok (probe_outcome fleet 0) \<and>
   usdPrice (nativeToken (probe_outcome fleet 0)) = Some 2000 \<and>
   (\<exists>d en. data (probe_outcome fleet 0) = Some d \<and> get_prop d ''senders'' = Some (JArr en) \<and>
           get_prop (en ! 0) ''usdValue'' = Some (JNum 20) \<and>
           get_prop (en ! 1) ''usdValue'' = Some (JNum 0)) \<and>
   snapshot_results (respond fleet (run fleet fleet_order (spawn fleet))) ! 3 =
     Some (probe_outcome fleet 3) \<and>
   ok (probe_outcome fleet 3) \<and>
   usdPrice (nativeToken (probe_outcome fleet 3)) = None \<and>
   (\<exists>s d en. summary (probe_outcome fleet 3) = Some s \<and> totalUsd s = None \<and> minUsd s = None \<and>
             data (probe_outcome fleet 3) = Some d \<and> get_prop d ''senders'' = Some (JArr en) \<and>
             get_prop (en ! 0) ''usdValue'' = Some JNull)"
proof -
  let ?R = "respond fleet (run fleet fleet_order (spawn fleet))"
  have S: "onRequest fleet fleet_order = Some ?R"
    by (rule fleet_run)
  have at0: "snapshot_results ?R ! 0 = Some (probe_outcome fleet 0)"
    and at3: "snapshot_results ?R ! 3 = Some (probe_outcome fleet 3)"
    using snapshot_outcome [OF S] fleet_shape by simp_all
  have i0: "0 < length (networks fleet)" and i3: "3 < length (networks fleet)"
    by (simp_all add: fleet_shape)
  obtain res j s d en where a:
    "relayer fleet 0 = Resolved res" "res_json res = Inr j"
    "summary (probe_outcome fleet 0) = Some s"
    "data (probe_outcome fleet 0) = Some d" "get_prop d ''senders'' = Some (JArr en)"
    "length en = length (senders_of j)"
    "usdPrice (nativeToken (probe_outcome fleet 0)) = None \<longrightarrow>
       totalUsd s = None \<and> minUsd s = None \<and>
       (\<forall>k<length en. get_prop (en ! k) ''usdValue'' = Some JNull)"
    "\<forall>p. usdPrice (nativeToken (probe_outcome fleet 0)) = Some p \<longrightarrow>
       (\<forall>k<length en. get_prop (en ! k) ''usdValue'' = Some (JNum (balance_of (senders_of j ! k) * p)))"
    using usd_fields_follow_price [OF S i0 at0 fleet_ok(1)] by (elim exE conjE) (rule that)
  have j: "j = mainnet_status"
    using a(1,2) by (auto simp: fleet_bodies)
  have v0: "get_prop (en ! 0) ''usdValue'' = Some (JNum 20)"
    and v1: "get_prop (en ! 1) ''usdValue'' = Some (JNum 0)"
    using a(6,8) by (simp_all add: j fleet_token_price fleet_senders balance_of_def get_prop_def)
  obtain res' j' s' d' en' where b:
    "relayer fleet 3 = Resolved res'" "res_json res' = Inr j'"
    "summary (probe_outcome fleet 3) = Some s'"
    "data (probe_outcome fleet 3) = Some d'" "get_prop d' ''senders'' = Some (JArr en')"
    "length en' = length (senders_of j')"
    "usdPrice (nativeToken (probe_outcome fleet 3)) = None \<longrightarrow>
       totalUsd s' = None \<and> minUsd s' = None \<and>
       (\<forall>k<length en'. get_prop (en' ! k) ''usdValue'' = Some JNull)"
    "\<forall>p. usdPrice (nativeToken (probe_outcome fleet 3)) = Some p \<longrightarrow>
       (\<forall>k<length en'. get_prop (en' ! k) ''usdValue'' = Some (JNum (balance_of (senders_of j' ! k) * p)))"
    using usd_fields_follow_price [OF S i3 at3 fleet_ok(2)] by (elim exE conjE) (rule that)
  have j': "j' = xai_status"
    using b(1,2) by (auto simp: fleet_bodies)
  have n: "totalUsd s' = None" "minUsd s' = None" "get_prop (en' ! 0) ''usdValue'' = Some JNull"
    using b(6,7) by (simp_all add: j' fleet_token_price fleet_senders)
  show ?thesis
    using S at0 at3 fleet_ok(1,2) fleet_token_price(1,2) a(4,5) v0 v1 b(3,4,5) n by blast
qed

section \<open>The least native balance\<close>

text \<open>
  Claim C6. In a successful outcome of a snapshot, \<^verbatim>\<open>summary.minNative\<close> is \<^verbatim>\<open>null\<close>
  exactly when the enriched sender list is empty. Otherwise it is the minimum of the
  native balances of that list, read from the senders themselves: it is at most the
  \<^verbatim>\<open>etherBalance\<close> of every sender that has a number there, and when every sender has
  one it is the \<^verbatim>\<open>etherBalance\<close> of one of them. A sender without a numeric
  \<^verbatim>\<open>etherBalance\<close> counts with balance 0: when there is one, the minimum is at most 0,
  and it is 0 or the \<^verbatim>\<open>etherBalance\<close> of a sender. The enriched senders have the
  \<^verbatim>\<open>etherBalance\<close> of the raw ones. When the raw payload has no \<^verbatim>\<open>senders\<close> list, the
  enriched list is empty, the sender count is 0 and \<^verbatim>\<open>minNative\<close> is \<^verbatim>\<open>null\<close>.
\<close>

theorem minNative_is_least_balance:
  assumes snap: "onRequest rq sched = Some snap"
    and idx: "idx < length (networks rq)"
    and out: "snapshot_results snap ! idx = Some out"
    and ok: "ok out"
  shows "\<exists>res jsonRaw s d en.
           relayer rq idx = Resolved res \<and> res_json res = Inr jsonRaw \<and>
           summary out = Some s \<and> data out = Some d \<and>
           get_prop d ''senders'' = Some (JArr en) \<and>
           length en = length (senders_of jsonRaw) \<and>
           (\<forall>k<length en. get_prop (en ! k) ''etherBalance'' =
                            get_prop (senders_of jsonRaw ! k) ''etherBalance'') \<and>
           senderCount s = length en \<and>
           (minNative s = None \<longleftrightarrow> en = []) \<and>
           (\<forall>m. minNative s = Some m \<longrightarrow>
              (\<forall>t\<in>set en. \<forall>x. get_prop t ''etherBalance'' = Some (JNum x) \<longrightarrow> m \<le> x)) \<and>
           (\<forall>m. minNative s = Some m \<and>
                (\<forall>t\<in>set en. \<exists>x. get_prop t ''etherBalance'' = Some (JNum x)) \<longrightarrow>
              (\<exists>t\<in>set en. get_prop t ''etherBalance'' = Some (JNum m))) \<and>
           (\<forall>m. minNative s = Some m \<and>
                (\<exists>t\<in>set en. \<forall>x. get_prop t ''etherBalance'' \<noteq> Some (JNum x)) \<longrightarrow>
              m \<le> 0 \<and> (m = 0 \<or> (\<exists>t\<in>set en. get_prop t ''etherBalance'' = Some (JNum m)))) \<and>
           ((\<forall>xs. get_prop jsonRaw ''senders'' \<noteq> Some (JArr xs)) \<longrightarrow>
              en = [] \<and> senderCount s = 0 \<and> minNative s = None)"
proof -
  have o: "out = probe_outcome rq idx"
    using snapshot_outcome [OF snap idx] out by simp
  then have "ok (probe_outcome rq idx)" using ok by simp
  then obtain res j where r: "relayer rq idx = Resolved res" "res_json res = Inr j"
    and s: "out = success (networks rq ! idx) (coinGeckoId_at rq idx) (usdPrice_at rq idx) res j"
    using o by (auto elim: ok_probe_outcomeD)
  let ?price = "usdPrice_at rq idx"
  let ?en = "enrichedSenders ?price j"
  let ?s = "summarise ?price ?en"
  have sm: "summary out = Some ?s" and d: "data out = Some (enriched_data j ?en)"
    using s by (simp_all add: success_fields)
  have len: "length ?en = length (senders_of j)"
    by (simp add: enrichedSenders_def)
  have same: "\<forall>k<length ?en. get_prop (?en ! k) ''etherBalance'' =
                               get_prop (senders_of j ! k) ''etherBalance''"
    by (simp add: enrichedSenders_def enrich_sender_etherBalance)
  have absent: "(\<forall>xs. get_prop j ''senders'' \<noteq> Some (JArr xs)) \<longrightarrow>
      ?en = [] \<and> senderCount ?s = 0 \<and> minNative ?s = None"
    by (simp add: summarise_count summarise_minNative senders_of_not_list enrichedSenders_def)
  have iff: "minNative ?s = None \<longleftrightarrow> ?en = []"
    by (simp add: summarise_minNative)
  have num: "balance_of t = x" if "get_prop t ''etherBalance'' = Some (JNum x)" for t x
    using that by (simp add: balance_of_def)
  have other: "balance_of t = 0" if "\<forall>x. get_prop t ''etherBalance'' \<noteq> Some (JNum x)" for t
    using that by (auto simp: balance_of_def split: option.splits json.splits)
  have least: "m \<le> balance_of t" if "minNative ?s = Some m" "t \<in> set ?en" for m t
  proof -
    have "?en \<noteq> []" using that(2) by auto
    then have "m = Min (balance_of ` set ?en)"
      using that(1) by (simp add: summarise_minNative)
    then show ?thesis using that(2) by simp
  qed
  have attained: "\<exists>t\<in>set ?en. m = balance_of t" if "minNative ?s = Some m" for m
  proof -
    have ne: "?en \<noteq> []" using that iff by auto
    then have "m = Min (balance_of ` set ?en)"
      using that by (simp add: summarise_minNative)
    moreover have "Min (balance_of ` set ?en) \<in> balance_of ` set ?en"
      using ne by (intro Min_in) simp_all
    ultimately show ?thesis by auto
  qed
  have lower: "\<forall>m. minNative ?s = Some m \<longrightarrow>
      (\<forall>t\<in>set ?en. \<forall>x. get_prop t ''etherBalance'' = Some (JNum x) \<longrightarrow> m \<le> x)"
    using least num by fastforce
  have typed: "\<forall>m. minNative ?s = Some m \<and>
        (\<forall>t\<in>set ?en. \<exists>x. get_prop t ''etherBalance'' = Some (JNum x)) \<longrightarrow>
      (\<exists>t\<in>set ?en. get_prop t ''etherBalance'' = Some (JNum m))"
  proof (intro allI impI)
    fix m
    assume a: "minNative ?s = Some m \<and>
               (\<forall>t\<in>set ?en. \<exists>x. get_prop t ''etherBalance'' = Some (JNum x))"
    then obtain t where t: "t \<in> set ?en" "m = balance_of t"
      using attained by blast
    then obtain x where x: "get_prop t ''etherBalance'' = Some (JNum x)"
      using a by blast
    then have "m = x" using t(2) num by simp
    then show "\<exists>t\<in>set ?en. get_prop t ''etherBalance'' = Some (JNum m)"
      using t(1) x by blast
  qed
  have untyped: "\<forall>m. minNative ?s = Some m \<and>
        (\<exists>t\<in>set ?en. \<forall>x. get_prop t ''etherBalance'' \<noteq> Some (JNum x)) \<longrightarrow>
      m \<le> 0 \<and> (m = 0 \<or> (\<exists>t\<in>set ?en. get_prop t ''etherBalance'' = Some (JNum m)))"
  proof (intro allI impI)
    fix m
    assume a: "minNative ?s = Some m \<and>
               (\<exists>t\<in>set ?en. \<forall>x. get_prop t ''etherBalance'' \<noteq> Some (JNum x))"
    then obtain u where u: "u \<in> set ?en" "\<forall>x. get_prop u ''etherBalance'' \<noteq> Some (JNum x)"
      by blast
    have le: "m \<le> 0"
      using least [of m u] a u other [of u] by simp
    obtain t where t: "t \<in> set ?en" "m = balance_of t"
      using attained a by blast
    have "m = 0 \<or> (\<exists>t\<in>set ?en. get_prop t ''etherBalance'' = Some (JNum m))"
    proof (cases "\<exists>x. get_prop t ''etherBalance'' = Some (JNum x)")
      case True
      then obtain x where x: "get_prop t ''etherBalance'' = Some (JNum x)" by blast
      then have "m = x" using t(2) num by simp
      then show ?thesis using t(1) x by blast
    next
      case False
      then have "m = 0" using t(2) other [of t] by simp
      then show ?thesis by simp
    qed
    with le show "m \<le> 0 \<and> (m = 0 \<or> (\<exists>t\<in>set ?en. get_prop t ''etherBalance'' = Some (JNum m)))"
      by simp
  qed
  show ?thesis
    apply (rule exI [of _ res])
    apply (rule exI [of _ j])
    apply (rule exI [of _ ?s])
    apply (rule exI [of _ "enriched_data j ?en"])
    apply (rule exI [of _ ?en])
    using r sm d enriched_data_senders [of j ?en] len same
      summarise_count [of ?price ?en] iff lower typed untyped absent
    by (intro conjI)
qed

theorem minNative_is_least_balance_witness:
  "onRequest fleet fleet_order = Some (respond fleet (run fleet fleet_order (spawn fleet))) \<and>
   snapshot_results (respond fleet (run fleet fleet_order (spawn fleet))) ! 3 =
     Some (probe_outcome fleet 3) \<and>
   ok (probe_outcome fleet 3) \<and>
   senders_of xai_status =
     [JObj [(''index'', JNum 0), (''etherBalance'', JNum 1.5)],
      JObj [(''index'', JNum 1), (''etherBalance'', JNum 0.25)]] \<and>
   (\<exists>s. summary (probe_outcome fleet 3) = Some s \<and> senderCount s = 2 \<and>
        minNative s = Some 0.25) \<and>
   snapshot_results (respond fleet (run fleet fleet_order (spawn fleet))) ! 0 =
     Some (probe_outcome fleet 0) \<and>
   ok (probe_outcome fleet 0) \<and>
   (\<exists>s. summary (probe_outcome fleet 0) = Some s \<and> senderCount s = 2 \<and> minNative s = Some 0) \<and>
   snapshot_results (respond fleet (run fleet fleet_order (spawn fleet))) ! 4 =
     Some (probe_outcome fleet 4) \<and>
   ok (probe_outcome fleet 4) \<and>
   (\<exists>s. summary (probe_outcome fleet 4) = Some s \<and> senderCount s = 0 \<and> minNative s = None)"
proof -
  let ?R = "respond fleet (run fleet fleet_order (spawn fleet))"
  have S: "onRequest fleet fleet_order = Some ?R"
    by (rule fleet_run)
  have i0: "0 < length (networks fleet)" and i3: "3 < length (networks fleet)"
    and i4: "4 < length (networks fleet)"
    by (simp_all add: fleet_shape)
  have at0: "snapshot_results ?R ! 0 = Some (probe_outcome fleet 0)"
    and at3: "snapshot_results ?R ! 3 = Some (probe_outcome fleet 3)"
    and at4: "snapshot_results ?R ! 4 = Some (probe_outcome fleet 4)"
    by (rule snapshot_outcome [OF S i0], rule snapshot_outcome [OF S i3],
        rule snapshot_outcome [OF S i4])

  \<comment> \<open>two senders with balances 1.5 and 0.25\<close>
  obtain res j s d en where a:
    "relayer fleet 3 = Resolved res" "res_json res = Inr j"
    "summary (probe_outcome fleet 3) = Some s"
    "data (probe_outcome fleet 3) = Some d" "get_prop d ''senders'' = Some (JArr en)"
    "length en = length (senders_of j)"
    "\<forall>k<length en. get_prop (en ! k) ''etherBalance'' = get_prop (senders_of j ! k) ''etherBalance''"
    "senderCount s = length en"
    "minNative s = None \<longleftrightarrow> en = []"
    "\<forall>m. minNative s = Some m \<longrightarrow>
       (\<forall>t\<in>set en. \<forall>x. get_prop t ''etherBalance'' = Some (JNum x) \<longrightarrow> m \<le> x)"
    "\<forall>m. minNative s = Some m \<and>
         (\<forall>t\<in>set en. \<exists>x. get_prop t ''etherBalance'' = Some (JNum x)) \<longrightarrow>
       (\<exists>t\<in>set en. get_prop t ''etherBalance'' = Some (JNum m))"
    "\<forall>m. minNative s = Some m \<and>
         (\<exists>t\<in>set en. \<forall>x. get_prop t ''etherBalance'' \<noteq> Some (JNum x)) \<longrightarrow>
       m \<le> 0 \<and> (m = 0 \<or> (\<exists>t\<in>set en. get_prop t ''etherBalance'' = Some (JNum m)))"
    "(\<forall>xs. get_prop j ''senders'' \<noteq> Some (JArr xs)) \<longrightarrow>
       en = [] \<and> senderCount s = 0 \<and> minNative s = None"
    using minNative_is_least_balance [OF S i3 at3 fleet_ok(2)] by (elim exE conjE) (rule that)
  have j: "j = xai_status"
    using a(1,2) by (auto simp: fleet_bodies)
  have len: "length en = 2"
    using a(6) by (simp add: j fleet_senders)
  then obtain t0 t1 where en: "en = [t0, t1]"
    by (cases en; cases "tl en") auto
  have b0: "get_prop t0 ''etherBalance'' = Some (JNum (3 / 2))"
    and b1: "get_prop t1 ''etherBalance'' = Some (JNum (1 / 4))"
    using a(7) [rule_format, of 0] a(7) [rule_format, of 1]
    by (simp_all add: en j fleet_senders get_prop_def)
  obtain m where m: "minNative s = Some m"
    using a(9) en by (cases "minNative s") auto
  have le: "m \<le> 1 / 4"
    using a(10) [rule_format, OF m _ b1] by (simp add: en)
  have every: "\<forall>t\<in>set en. \<exists>x. get_prop t ''etherBalance'' = Some (JNum x)"
  proof
    fix t
    assume "t \<in> set en"
    then have "t = t0 \<or> t = t1" by (simp add: en)
    then show "\<exists>x. get_prop t ''etherBalance'' = Some (JNum x)"
      using b0 b1 by blast
  qed
  have "\<exists>t\<in>set en. get_prop t ''etherBalance'' = Some (JNum m)"
    using a(11) m every by blast
  then have "m = 3 / 2 \<or> m = 1 / 4"
    using b0 b1 by (auto simp: en)
  with le have "m = 1 / 4" by auto
  then have w3: "\<exists>s. summary (probe_outcome fleet 3) = Some s \<and> senderCount s = 2 \<and>
                     minNative s = Some 0.25"
    using a(3,8) len m by auto

  \<comment> \<open>one sender with balance 0.01 and one without a balance\<close>
  obtain res' j' s' d' en' where b:
    "relayer fleet 0 = Resolved res'" "res_json res' = Inr j'"
    "summary (probe_outcome fleet 0) = Some s'"
    "data (probe_outcome fleet 0) = Some d'" "get_prop d' ''senders'' = Some (JArr en')"
    "length en' = length (senders_of j')"
    "\<forall>k<length en'. get_prop (en' ! k) ''etherBalance'' = get_prop (senders_of j' ! k) ''etherBalance''"
    "senderCount s' = length en'"
    "minNative s' = None \<longleftrightarrow> en' = []"
    "\<forall>m. minNative s' = Some m \<longrightarrow>
       (\<forall>t\<in>set en'. \<forall>x. get_prop t ''etherBalance'' = Some (JNum x) \<longrightarrow> m \<le> x)"
    "\<forall>m. minNative s' = Some m \<and>
         (\<forall>t\<in>set en'. \<exists>x. get_prop t ''etherBalance'' = Some (JNum x)) \<longrightarrow>
       (\<exists>t\<in>set en'. get_prop t ''etherBalance'' = Some (JNum m))"
    "\<forall>m. minNative s' = Some m \<and>
         (\<exists>t\<in>set en'. \<forall>x. get_prop t ''etherBalance'' \<noteq> Some (JNum x)) \<longrightarrow>
       m \<le> 0 \<and> (m = 0 \<or> (\<exists>t\<in>set en'. get_prop t ''etherBalance'' = Some (JNum m)))"
    "(\<forall>xs. get_prop j' ''senders'' \<noteq> Some (JArr xs)) \<longrightarrow>
       en' = [] \<and> senderCount s' = 0 \<and> minNative s' = None"
    using minNative_is_least_balance [OF S i0 at0 fleet_ok(1)] by (elim exE conjE) (rule that)
  have j': "j' = mainnet_status"
    using b(1,2) by (auto simp: fleet_bodies)
  have len': "length en' = 2"
    using b(6) by (simp add: j' fleet_senders)
  then obtain u0 u1 where en': "en' = [u0, u1]"
    by (cases en'; cases "tl en'") auto
  have c0: "get_prop u0 ''etherBalance'' = Some (JNum (1 / 100))"
    and c1: "get_prop u1 ''etherBalance'' = None"
    using b(7) [rule_format, of 0] b(7) [rule_format, of 1]
    by (simp_all add: en' j' fleet_senders get_prop_def)
  obtain m' where m': "minNative s' = Some m'"
    using b(9) en' by (cases "minNative s'") auto
  have lack: "\<exists>t\<in>set en'. \<forall>x. get_prop t ''etherBalance'' \<noteq> Some (JNum x)"
    using c1 by (simp add: en')
  have "m' \<le> 0 \<and> (m' = 0 \<or> (\<exists>t\<in>set en'. get_prop t ''etherBalance'' = Some (JNum m')))"
    using b(12) m' lack by blast
  then have "m' = 0"
    using c0 c1 by (auto simp: en')
  then have w0: "\<exists>s. summary (probe_outcome fleet 0) = Some s \<and> senderCount s = 2 \<and>
                     minNative s = Some 0"
    using b(3,8) len' m' by auto

  \<comment> \<open>no list of senders\<close>
  obtain res'' j'' s'' d'' en'' where c:
    "relayer fleet 4 = Resolved res''" "res_json res'' = Inr j''"
    "summary (probe_outcome fleet 4) = Some s''"
    "data (probe_outcome fleet 4) = Some d''" "get_prop d'' ''senders'' = Some (JArr en'')"
    "length en'' = length (senders_of j'')"
    "\<forall>k<length en''. get_prop (en'' ! k) ''etherBalance'' =
                       get_prop (senders_of j'' ! k) ''etherBalance''"
    "senderCount s'' = length en''"
    "minNative s'' = None \<longleftrightarrow> en'' = []"
    "\<forall>m. minNative s'' = Some m \<longrightarrow>
       (\<forall>t\<in>set en''. \<forall>x. get_prop t ''etherBalance'' = Some (JNum x) \<longrightarrow> m \<le> x)"
    "\<forall>m. minNative s'' = Some m \<and>
         (\<forall>t\<in>set en''. \<exists>x. get_prop t ''etherBalance'' = Some (JNum x)) \<longrightarrow>
       (\<exists>t\<in>set en''. get_prop t ''etherBalance'' = Some (JNum m))"
    "\<forall>m. minNative s'' = Some m \<and>
         (\<exists>t\<in>set en''. \<forall>x. get_prop t ''etherBalance'' \<noteq> Some (JNum x)) \<longrightarrow>
       m \<le> 0 \<and> (m = 0 \<or> (\<exists>t\<in>set en''. get_prop t ''etherBalance'' = Some (JNum m)))"
    "(\<forall>xs. get_prop j'' ''senders'' \<noteq> Some (JArr xs)) \<longrightarrow>
       en'' = [] \<and> senderCount s'' = 0 \<and> minNative s'' = None"
    using minNative_is_least_balance [OF S i4 at4 fleet_ok(3)] by (elim exE conjE) (rule that)
  have j'': "j'' = arbitrum_status"
    using c(1,2) by (auto simp: fleet_bodies)
  have "\<forall>xs. get_prop j'' ''senders'' \<noteq> Some (JArr xs)"
    by (simp add: j'' arbitrum_status_def get_prop_def)
  then have w4: "\<exists>s. summary (probe_outcome fleet 4) = Some s \<and> senderCount s = 0 \<and>
                     minNative s = None"
    using c(3,13) by auto
  show ?thesis
    using S at3 fleet_ok(2) fleet_senders(2) w3 at0 fleet_ok(1) w0 at4 fleet_ok(3) w4
    by (intro conjI)
qed

section \<open>The result array\<close>

text \<open>
  The array is not sized to the network count before the workers start: with five
  networks it is empty when it is created, and still empty once the workers have
  been spawned.
\<close>

theorem results_array_counterexample:
  "length (results start) \<noteq> length (networks fleet) \<and>
   length (results (spawn fleet)) \<noteq> length (networks fleet)"
  by (simp add: start_def spawn_eq fleet_shape)

text \<open>
  Claim C7, as the code has it. The result array is created empty and is still empty
  when the workers have been spawned. During a run it is never longer than the number of claimed indices, a step
  of a worker never shortens it (a store past the end extends it), and when all
  workers have returned its length is the number of networks.
\<close>

theorem results_array_grows_by_stores:
  "results start = [] \<and>
   results (spawn rq) = [] \<and>
   (\<forall>sched.
      length (results (run rq sched (spawn rq))) \<le> cursor (run rq sched (spawn rq)) \<and>
      cursor (run rq sched (spawn rq)) \<le> length (networks rq) \<and>
      (\<forall>k. length (results (run rq sched (spawn rq))) \<le>
             length (results (resume rq k (run rq sched (spawn rq))))) \<and>
      (all_returned (run rq sched (spawn rq)) \<longrightarrow>
         length (results (run rq sched (spawn rq))) = length (networks rq)))"
proof (intro conjI allI impI)
  show "results start = []"
    by (simp add: start_def)
  show "results (spawn rq) = []"
    by (simp add: spawn_eq)
next
  fix sched
  let ?st = "run rq sched (spawn rq)"
  have inv: "pool_inv rq ?st" by (rule inv_reachable)
  show "length (results ?st) \<le> cursor ?st"
    using inv by (simp add: pool_inv_def)
  show "cursor ?st \<le> length (networks rq)"
    using inv by (simp add: pool_inv_def)
  show "length (results ?st) \<le> length (results (resume rq k ?st))" for k
    by (rule results_grow)
  assume "all_returned ?st"
  then show "length (results ?st) = length (networks rq)"
    using final_reachable [of rq sched] by simp
qed

theorem results_array_grows_by_stores_witness:
  "results (spawn fleet) = [] \<and>
   length (results (resume fleet 2 (spawn fleet))) = 3 \<and>
   all_returned (run fleet fleet_order (spawn fleet)) \<and>
   length (results (run fleet fleet_order (spawn fleet))) = 5"
proof -
  note t = results_array_grows_by_stores [of fleet]
  have w1: "results (spawn fleet) = []"
    by (rule t [THEN conjunct2, THEN conjunct1])
  have w3: "all_returned (run fleet fleet_order (spawn fleet))"
    by (rule fleet_returned)
  have w4: "length (results (run fleet fleet_order (spawn fleet))) = 5"
    using t [THEN conjunct2, THEN conjunct2, THEN spec [where x = fleet_order],
        THEN conjunct2, THEN conjunct2, THEN conjunct2] w3
    by (simp add: fleet_shape)
  show ?thesis
    using w1 fleet_first_store w3 w4 by (intro conjI)
qed

section \<open>The enriched payload keeps the other fields\<close>

text \<open>
  Claim C8. A successful outcome of a snapshot comes from a probe with a status in
  200 to 299 and a readable body whose enrichment has not thrown. Its \<^verbatim>\<open>data\<close> has
  the enriched sender list under \<^verbatim>\<open>senders\<close>, and every other top-level field of the
  raw payload is present in it with its value unchanged. When the raw payload is a
  JSON object, \<^verbatim>\<open>data\<close> is that object with only \<^verbatim>\<open>senders\<close> set: no other field is
  added, removed or changed.
\<close>

theorem enriched_payload_keeps_other_fields:
  assumes snap: "onRequest rq sched = Some snap"
    and idx: "idx < length (networks rq)"
    and out: "snapshot_results snap ! idx = Some out"
    and ok: "ok out"
  shows "\<exists>res jsonRaw d en.
           relayer rq idx = Resolved res \<and> res_ok res \<and> res_json res = Inr jsonRaw \<and>
           enrichment_fault (call_refused rq) (usdPrice (nativeToken out)) jsonRaw = None \<and>
           data out = Some d \<and>
           en = enrichedSenders (usdPrice (nativeToken out)) jsonRaw \<and>
           get_prop d ''senders'' = Some (JArr en) \<and>
           (\<forall>k v. k \<noteq> ''senders'' \<and> get_prop jsonRaw k = Some v \<longrightarrow> get_prop d k = Some v) \<and>
           (\<forall>kvs. jsonRaw = JObj kvs \<longrightarrow>
              d = JObj (AList.update ''senders'' (JArr en) kvs) \<and>
              (\<forall>k. k \<noteq> ''senders'' \<longrightarrow> get_prop d k = get_prop jsonRaw k))"
proof -
  have o: "out = probe_outcome rq idx"
    using snapshot_outcome [OF snap idx] out by simp
  then have "ok (probe_outcome rq idx)" using ok by simp
  then obtain res jsonRaw where r: "relayer rq idx = Resolved res" "res_ok res"
      "res_json res = Inr jsonRaw"
    and nf: "enrichment_fault (call_refused rq) (usdPrice_at rq idx) jsonRaw = None"
    and s: "out = success (networks rq ! idx) (coinGeckoId_at rq idx) (usdPrice_at rq idx) res jsonRaw"
    using o by (auto elim: ok_probe_outcomeD)
  let ?price = "usdPrice_at rq idx"
  let ?en = "enrichedSenders ?price jsonRaw"
  let ?d = "enriched_data jsonRaw ?en"
  have p: "usdPrice (nativeToken out) = ?price" and d: "data out = Some ?d"
    using s by (simp_all add: success_fields)
  have other: "\<forall>k v. k \<noteq> ''senders'' \<and> get_prop jsonRaw k = Some v \<longrightarrow> get_prop ?d k = Some v"
    using enriched_data_other by blast
  have obj: "jsonRaw = JObj kvs \<Longrightarrow>
      ?d = JObj (AList.update ''senders'' (JArr ?en) kvs) \<and>
      (\<forall>k. k \<noteq> ''senders'' \<longrightarrow> get_prop ?d k = get_prop jsonRaw k)" for kvs
    by (simp add: enriched_data_object get_prop_def update_conv')
  have en_obj: "\<forall>kvs. jsonRaw = JObj kvs \<longrightarrow>
      ?d = JObj (AList.update ''senders'' (JArr ?en) kvs) \<and>
      (\<forall>k. k \<noteq> ''senders'' \<longrightarrow> get_prop ?d k = get_prop jsonRaw k)"
    by (intro allI impI) (rule obj)
  have en: "?en = enrichedSenders ?price jsonRaw" by (rule refl)
  show ?thesis
    unfolding p
    apply (rule exI [of _ res])
    apply (rule exI [of _ jsonRaw])
    apply (rule exI [of _ ?d])
    apply (rule exI [of _ ?en])
    using r nf d en enriched_data_senders [of jsonRaw ?en] other en_obj
    by (intro conjI)
qed

theorem enriched_payload_keeps_other_fields_witness:
  "onRequest fleet fleet_order = Some (respond fleet (run fleet fleet_order (spawn fleet))) \<and>
   snapshot_results (respond fleet (run fleet fleet_order (spawn fleet))) ! 0 =
     Some (probe_outcome fleet 0) \<and>
   ok (probe_outcome fleet 0) \<and>
   relayer fleet 0 = Resolved \<lparr> res_status = 200, res_json = Inr mainnet_status \<rparr> \<and>
   (\<exists>d. data (probe_outcome fleet 0) = Some d \<and>
        get_prop d ''healthOK'' = Some (JBool True) \<and>
        get_prop d ''ver'' = Some (JStr ''v1'') \<and>
        get_prop d ''senders'' = Some (JArr (enrichedSenders (Some 2000) mainnet_status)) \<and>
        d = JObj [(''healthOK'', JBool True),
                  (''senders'', JArr (enrichedSenders (Some 2000) mainnet_status)),
                  (''ver'', JStr ''v1'')])"
proof -
  let ?R = "respond fleet (run fleet fleet_order (spawn fleet))"
  have S: "onRequest fleet fleet_order = Some ?R"
    by (rule fleet_run)
  have i0: "0 < length (networks fleet)"
    by (simp add: fleet_shape)
  have at0: "snapshot_results ?R ! 0 = Some (probe_outcome fleet 0)"
    by (rule snapshot_outcome [OF S i0])
  obtain res j d en where a:
    "relayer fleet 0 = Resolved res" "res_ok res" "res_json res = Inr j"
    "enrichment_fault (call_refused fleet) (usdPrice (nativeToken (probe_outcome fleet 0))) j = None"
    "data (probe_outcome fleet 0) = Some d"
    "en = enrichedSenders (usdPrice (nativeToken (probe_outcome fleet 0))) j"
    "get_prop d ''senders'' = Some (JArr en)"
    "\<forall>k v. k \<noteq> ''senders'' \<and> get_prop j k = Some v \<longrightarrow> get_prop d k = Some v"
    "\<forall>kvs. j = JObj kvs \<longrightarrow>
       d = JObj (AList.update ''senders'' (JArr en) kvs) \<and>
       (\<forall>k. k \<noteq> ''senders'' \<longrightarrow> get_prop d k = get_prop j k)"
    using enriched_payload_keeps_other_fields [OF S i0 at0 fleet_ok(1)]
    by (elim exE conjE) (rule that)
  have j: "j = mainnet_status"
    using a(1,3) by (auto simp: fleet_bodies)
  have en: "en = enrichedSenders (Some 2000) mainnet_status"
    using a(6) by (simp add: j fleet_token_price)
  have h: "get_prop d ''healthOK'' = Some (JBool True)" and v: "get_prop d ''ver'' = Some (JStr ''v1'')"
    using a(8) by (simp_all add: j mainnet_status_def get_prop_def)
  have sd: "get_prop d ''senders'' = Some (JArr (enrichedSenders (Some 2000) mainnet_status))"
    using a(7) en by simp
  have whole: "d = JObj [(''healthOK'', JBool True),
                         (''senders'', JArr (enrichedSenders (Some 2000) mainnet_status)),
                         (''ver'', JStr ''v1'')]"
    using a(9) en by (simp add: j mainnet_status_def)
  have "\<exists>d. data (probe_outcome fleet 0) = Some d \<and>
        get_prop d ''healthOK'' = Some (JBool True) \<and>
        get_prop d ''ver'' = Some (JStr ''v1'') \<and>
        get_prop d ''senders'' = Some (JArr (enrichedSenders (Some 2000) mainnet_status)) \<and>
        d = JObj [(''healthOK'', JBool True),
                  (''senders'', JArr (enrichedSenders (Some 2000) mainnet_status)),
                  (''ver'', JStr ''v1'')]"
    apply (rule exI [of _ d])
    using a(5) h v sd whole by (intro conjI)
  then show ?thesis
    using S at0 fleet_ok(1) fleet_bodies(1) by (intro conjI)
qed

section \<open>Every outcome names the native token\<close>

text \<open>
  Claim C9. Every outcome of a snapshot, failed or successful, has a \<^verbatim>\<open>nativeToken\<close>
  with the symbol and the name of the network's native currency, the price-feed
  identifier resolved for the network and the USD price looked up for that
  identifier (\<^verbatim>\<open>null\<close> when there is none). The identifier is read from the table
  keyed by network name; when the names of the registry are distinct it is the
  identifier of the network's own symbol.
\<close>

theorem every_outcome_has_nativeToken:
  assumes snap: "onRequest rq sched = Some snap"
    and idx: "idx < length (networks rq)"
  shows "\<exists>out. snapshot_results snap ! idx = Some out \<and>
           nt_symbol (nativeToken out) = map_option symbol (nativeCurrency (networks rq ! idx)) \<and>
           nt_name (nativeToken out) = map_option currency_name (nativeCurrency (networks rq ! idx)) \<and>
           coinGeckoId (nativeToken out) = coinGeckoId_at rq idx \<and>
           usdPrice (nativeToken out) =
             usdPrice_of (pricesUsd (priced rq)) (coinGeckoId (nativeToken out)) \<and>
           (distinct (map name (networks rq)) \<longrightarrow>
              coinGeckoId (nativeToken out) = resolve_id (networks rq ! idx))"
proof -
  let ?out = "probe_outcome rq idx"
  have o: "snapshot_results snap ! idx = Some ?out"
    by (rule snapshot_outcome [OF snap idx])
  have t: "nativeToken ?out =
      native_token_of (networks rq ! idx) (coinGeckoId_at rq idx) (usdPrice_at rq idx)"
    by (rule probe_outcome_token)
  have s: "nt_symbol (nativeToken ?out) = map_option symbol (nativeCurrency (networks rq ! idx))"
    and n: "nt_name (nativeToken ?out) = map_option currency_name (nativeCurrency (networks rq ! idx))"
    and c: "coinGeckoId (nativeToken ?out) = coinGeckoId_at rq idx"
    and p: "usdPrice (nativeToken ?out) =
              usdPrice_of (pricesUsd (priced rq)) (coinGeckoId (nativeToken ?out))"
    unfolding t by (simp_all add: native_token_of_def usdPrice_at_def)
  have d: "distinct (map name (networks rq)) \<longrightarrow>
      coinGeckoId (nativeToken ?out) = resolve_id (networks rq ! idx)"
    using c idx by (simp add: coinGeckoId_at_distinct)
  show ?thesis
    apply (rule exI [of _ ?out])
    using o s n c p d by (intro conjI)
qed

theorem every_outcome_has_nativeToken_witness:
  "onRequest fleet fleet_order = Some (respond fleet (run fleet fleet_order (spawn fleet))) \<and>
   distinct (map name (networks fleet)) \<and>
   (\<exists>out. snapshot_results (respond fleet (run fleet fleet_order (spawn fleet))) ! 1 = Some out \<and>
          \<not> ok out \<and> status out = 503 \<and>
          nt_symbol (nativeToken out) = Some ''POL'' \<and> nt_name (nativeToken out) = Some ''POL'' \<and>
          coinGeckoId (nativeToken out) = Some ''polygon-ecosystem-token'' \<and>
          usdPrice (nativeToken out) = None) \<and>
   (\<exists>out. snapshot_results (respond fleet (run fleet fleet_order (spawn fleet))) ! 2 = Some out \<and>
          \<not> ok out \<and> status out = 0 \<and>
          nt_symbol (nativeToken out) = None \<and> coinGeckoId (nativeToken out) = None \<and>
          usdPrice (nativeToken out) = None) \<and>
   (\<exists>out. snapshot_results (respond fleet (run fleet fleet_order (spawn fleet))) ! 0 = Some out \<and>
          ok out \<and>
          nt_symbol (nativeToken out) = Some ''ETH'' \<and> nt_name (nativeToken out) = Some ''Ether'' \<and>
          coinGeckoId (nativeToken out) = Some ''ethereum'' \<and>
          usdPrice (nativeToken out) = Some 2000)"
proof -
  let ?R = "respond fleet (run fleet fleet_order (spawn fleet))"
  have S: "onRequest fleet fleet_order = Some ?R"
    by (rule fleet_run)
  have nets: "networks fleet = [mainnet, polygon, devnet, xai, arbitrum]"
    by (simp add: fleet_def)
  have dist: "distinct (map name (networks fleet))"
    by (simp add: nets mainnet_def polygon_def devnet_def xai_def arbitrum_def)
  have at: "snapshot_results ?R ! i = Some (probe_outcome fleet i)" if "i < 5" for i
    using snapshot_outcome [OF S, of i] that fleet_shape by simp
  have fail1: "\<not> ok (probe_outcome fleet 1)" "status (probe_outcome fleet 1) = 503"
    and fail2: "\<not> ok (probe_outcome fleet 2)" "status (probe_outcome fleet 2) = 0"
    using probe_outcome_http [OF fleet_bodies(2)] probe_outcome_rejected [OF fleet_bodies(3)]
    by (simp_all add: res_ok_def http_failure_def caught_def)
  have w: "\<exists>out. snapshot_results ?R ! i = Some out \<and>
           nt_symbol (nativeToken out) = map_option symbol (nativeCurrency (networks fleet ! i)) \<and>
           nt_name (nativeToken out) = map_option currency_name (nativeCurrency (networks fleet ! i)) \<and>
           coinGeckoId (nativeToken out) = coinGeckoId_at fleet i \<and>
           usdPrice (nativeToken out) =
             usdPrice_of (pricesUsd (priced fleet)) (coinGeckoId (nativeToken out)) \<and>
           (distinct (map name (networks fleet)) \<longrightarrow>
              coinGeckoId (nativeToken out) = resolve_id (networks fleet ! i))"
    if "i < 5" for i
    using every_outcome_has_nativeToken [OF S, of i] that fleet_shape by simp
  have w1: "\<exists>out. snapshot_results ?R ! 1 = Some out \<and>
          \<not> ok out \<and> status out = 503 \<and>
          nt_symbol (nativeToken out) = Some ''POL'' \<and> nt_name (nativeToken out) = Some ''POL'' \<and>
          coinGeckoId (nativeToken out) = Some ''polygon-ecosystem-token'' \<and>
          usdPrice (nativeToken out) = None"
    using w [of 1] at [of 1] fail1
    by (auto simp: nets polygon_def fleet_cids [unfolded One_nat_def] fleet_priced usdPrice_of_def)
  have w2: "\<exists>out. snapshot_results ?R ! 2 = Some out \<and>
          \<not> ok out \<and> status out = 0 \<and>
          nt_symbol (nativeToken out) = None \<and> coinGeckoId (nativeToken out) = None \<and>
          usdPrice (nativeToken out) = None"
    using w [of 2] at [of 2] fail2
    by (auto simp: nets devnet_def fleet_cids fleet_priced usdPrice_of_def)
  have w0: "\<exists>out. snapshot_results ?R ! 0 = Some out \<and>
          ok out \<and>
          nt_symbol (nativeToken out) = Some ''ETH'' \<and> nt_name (nativeToken out) = Some ''Ether'' \<and>
          coinGeckoId (nativeToken out) = Some ''ethereum'' \<and>
          usdPrice (nativeToken out) = Some 2000"
    using w [of 0] at [of 0] fleet_ok(1)
    by (auto simp: nets mainnet_def fleet_cids fleet_priced usdPrice_of_def)
  show ?thesis
    using S dist w1 w2 w0 by (intro conjI)
qed

section \<open>A sender without a numeric balance\<close>

text \<open>
  Claim C10. In a successful outcome of a snapshot with a known price, a sender whose
  \<^verbatim>\<open>etherBalance\<close> is absent or not a number gets \<^verbatim>\<open>usdValue\<close> 0; and the \<^verbatim>\<open>usdValue\<close> of
  a sender is \<^verbatim>\<open>null\<close> exactly when the price is unknown.
\<close>

theorem missing_balance_counts_as_zero:
  assumes snap: "onRequest rq sched = Some snap"
    and idx: "idx < length (networks rq)"
    and out: "snapshot_results snap ! idx = Some out"
    and ok: "ok out"
  shows "\<exists>res jsonRaw d en.
           relayer rq idx = Resolved res \<and> res_json res = Inr jsonRaw \<and>
           data out = Some d \<and> get_prop d ''senders'' = Some (JArr en) \<and>
           length en = length (senders_of jsonRaw) \<and>
           (\<forall>k<length en.
              (usdPrice (nativeToken out) \<noteq> None \<and>
               (\<forall>x. get_prop (senders_of jsonRaw ! k) ''etherBalance'' \<noteq> Some (JNum x)) \<longrightarrow>
                 get_prop (en ! k) ''usdValue'' = Some (JNum 0)) \<and>
              (get_prop (en ! k) ''usdValue'' = Some JNull \<longleftrightarrow> usdPrice (nativeToken out) = None))"
proof -
  have o: "out = probe_outcome rq idx"
    using snapshot_outcome [OF snap idx] out by simp
  then have "ok (probe_outcome rq idx)" using ok by simp
  then obtain res j where r: "relayer rq idx = Resolved res" "res_json res = Inr j"
    and s: "out = success (networks rq ! idx) (coinGeckoId_at rq idx) (usdPrice_at rq idx) res j"
    using o by (auto elim: ok_probe_outcomeD)
  let ?price = "usdPrice_at rq idx"
  let ?en = "enrichedSenders ?price j"
  have p: "usdPrice (nativeToken out) = ?price" and d: "data out = Some (enriched_data j ?en)"
    using s by (simp_all add: success_fields)
  have len: "length ?en = length (senders_of j)"
    by (simp add: enrichedSenders_def)
  have zero: "balance_of t = 0" if "\<forall>x. get_prop t ''etherBalance'' \<noteq> Some (JNum x)" for t
    using that by (auto simp: balance_of_def split: option.splits json.splits)
  have each: "\<forall>k<length ?en.
      (?price \<noteq> None \<and> (\<forall>x. get_prop (senders_of j ! k) ''etherBalance'' \<noteq> Some (JNum x)) \<longrightarrow>
         get_prop (?en ! k) ''usdValue'' = Some (JNum 0)) \<and>
      (get_prop (?en ! k) ''usdValue'' = Some JNull \<longleftrightarrow> ?price = None)"
    by (auto simp: enrichedSenders_def enrich_sender_usdValue zero split: option.splits)
  show ?thesis
    unfolding p
    apply (rule exI [of _ res])
    apply (rule exI [of _ j])
    apply (rule exI [of _ "enriched_data j ?en"])
    apply (rule exI [of _ ?en])
    using r d enriched_data_senders [of j ?en] len each
    by (intro conjI)
qed

theorem missing_balance_counts_as_zero_witness:
  "onRequest fleet fleet_order = Some (respond fleet (run fleet fleet_order (spawn fleet))) \<and>
   snapshot_results (respond fleet (run fleet fleet_order (spawn fleet))) ! 0 =
     Some (probe_outcome fleet 0) \<and>
   ok (probe_outcome fleet 0) \<and>
   usdPrice (nativeToken (probe_outcome fleet 0)) = Some 2000 \<and>
   get_prop (senders_of mainnet_status ! 1) ''etherBalance'' = None \<and>
   (\<exists>d en. data (probe_outcome fleet 0) = Some d \<and> get_prop d ''senders'' = Some (JArr en) \<and>
           get_prop (en ! 1) ''usdValue'' = Some (JNum 0) \<and>
           get_prop (en ! 0) ''usdValue'' \<noteq> Some JNull)"
proof -
  let ?R = "respond fleet (run fleet fleet_order (spawn fleet))"
  have S: "onRequest fleet fleet_order = Some ?R"
    by (rule fleet_run)
  have at0: "snapshot_results ?R ! 0 = Some (probe_outcome fleet 0)"
    using snapshot_outcome [OF S] fleet_shape by simp
  have i0: "0 < length (networks fleet)"
    by (simp add: fleet_shape)
  obtain res j d en where a:
    "relayer fleet 0 = Resolved res" "res_json res = Inr j"
    "data (probe_outcome fleet 0) = Some d" "get_prop d ''senders'' = Some (JArr en)"
    "length en = length (senders_of j)"
    "\<forall>k<length en.
       (usdPrice (nativeToken (probe_outcome fleet 0)) \<noteq> None \<and>
        (\<forall>x. get_prop (senders_of j ! k) ''etherBalance'' \<noteq> Some (JNum x)) \<longrightarrow>
          get_prop (en ! k) ''usdValue'' = Some (JNum 0)) \<and>
       (get_prop (en ! k) ''usdValue'' = Some JNull \<longleftrightarrow>
          usdPrice (nativeToken (probe_outcome fleet 0)) = None)"
    using missing_balance_counts_as_zero [OF S i0 at0 fleet_ok(1)] by (elim exE conjE) (rule that)
  have j: "j = mainnet_status"
    using a(1,2) by (auto simp: fleet_bodies)
  have len: "length en = 2"
    using a(5) by (simp add: j fleet_senders)
  have absent: "get_prop (senders_of mainnet_status ! 1) ''etherBalance'' = None"
    by (simp add: fleet_senders get_prop_def)
  have "1 < length en" "0 < length en" using len by simp_all
  then have v1: "get_prop (en ! 1) ''usdValue'' = Some (JNum 0)"
    and v0: "get_prop (en ! 0) ''usdValue'' \<noteq> Some JNull"
    using a(6) absent by (simp_all add: j fleet_token_price)
  show ?thesis
    using S at0 fleet_ok(1) fleet_token_price(1) absent a(3,4) v1 v0 by blast
qed

end
